theory Spec2Isabelle
  imports Main "HOL-Library.Word"
begin

unbundle bit_operations_syntax

section \<open>JavaScript values\<close>

text \<open>
  The values that flow through \<^verbatim>\<open>vnode.ts\<close>. Numbers are the integers plus \<open>NaN\<close>
  (fractions play no part in the code modelled here). Functions, arrays and objects carry
  an identity tag: \<^verbatim>\<open>===\<close> on them compares the tags, never the contents. What a
  call of a function does is not part of the value: the environment below tells it.
  \<open>VN a\<close> is a reference to the vnode at address \<open>a\<close>,
  \<open>Inst i\<close> a reference to a component instance, \<open>Sym k\<close> the symbol
  \<^verbatim>\<open>Symbol.for(k)\<close>.
\<close>

datatype jsval =
    Undefined | Null | Bool bool | Num int | NaN | Str string
  | Sym string | Fn nat | Arr nat "jsval list" | Obj nat "(string \<times> jsval) list"
  | VN nat | Inst nat

type_synonym data = "(string \<times> jsval) list"

text \<open>
  What a call can throw. \<open>Unmodelled\<close> marks the places where the model stops: the code
  has been handed, under a cast, a value that is not of the type the parameter declares
  (a string where a vnode is expected), and JavaScript would carry on with an object whose
  fields are \<^verbatim>\<open>undefined\<close>, which the store of vnodes does not hold.
\<close>

datatype error = TypeError | Unmodelled

fun truthy :: "jsval \<Rightarrow> bool" where
  "truthy Undefined = False"
| "truthy Null = False"
| "truthy (Bool b) = b"
| "truthy (Num n) = (n \<noteq> 0)"
| "truthy NaN = False"
| "truthy (Str s) = (s \<noteq> [])"
| "truthy _ = True"

text \<open>
  \<^verbatim>\<open>a === b\<close>: primitives are compared by value, except that \<open>NaN\<close> equals
  nothing; functions, arrays and objects are compared by identity, so their contents are
  set aside before comparing.
\<close>

fun identity :: "jsval \<Rightarrow> jsval" where
  "identity (Arr t _) = Arr t []"
| "identity (Obj t _) = Obj t []"
| "identity v = v"

definition strict_eq :: "jsval \<Rightarrow> jsval \<Rightarrow> bool" where
  "strict_eq a b = (a \<noteq> NaN \<and> identity a = identity b)"

text \<open>\<^verbatim>\<open>x == null\<close>.\<close>

fun is_nullish :: "jsval \<Rightarrow> bool" where
  "is_nullish Undefined = True"
| "is_nullish Null = True"
| "is_nullish _ = False"

fun isString :: "jsval \<Rightarrow> bool" where
  "isString (Str _) = True"
| "isString _ = False"

fun isArray :: "jsval \<Rightarrow> bool" where
  "isArray (Arr _ _) = True"
| "isArray _ = False"

fun isFunction :: "jsval \<Rightarrow> bool" where
  "isFunction (Fn _) = True"
| "isFunction _ = False"

text \<open>\<^verbatim>\<open>typeof x === 'object'\<close> for a value that is not \<^verbatim>\<open>null\<close>.\<close>

fun isObject :: "jsval \<Rightarrow> bool" where
  "isObject (Arr _ _) = True"
| "isObject (Obj _ _) = True"
| "isObject (VN _) = True"
| "isObject (Inst _) = True"
| "isObject _ = False"

text \<open>\<^verbatim>\<open>obj[k]\<close> on the own enumerable properties of a plain object.\<close>

fun lookup :: "string \<Rightarrow> data \<Rightarrow> jsval" where
  "lookup k [] = Undefined"
| "lookup k ((k', v) # kvs) = (if k = k' then v else lookup k kvs)"

text \<open>
  The own properties of an object are listed in the order in which JavaScript enumerates
  them: the keys that are array indices (the decimal numerals below \<open>2\<^sup>3\<^sup>2 - 1\<close>) first,
  in ascending order, then the other keys in the order in which they were created.
\<close>

definition is_digit :: "char \<Rightarrow> bool" where
  "is_digit c = (48 \<le> (of_char c :: nat) \<and> (of_char c :: nat) \<le> 57)"

fun digits_value :: "nat \<Rightarrow> string \<Rightarrow> nat" where
  "digits_value acc [] = acc"
| "digits_value acc (c # cs) = digits_value (10 * acc + ((of_char c :: nat) - 48)) cs"

definition array_index :: "string \<Rightarrow> nat option" where
  "array_index k =
     (if k \<noteq> [] \<and> list_all is_digit k \<and> (k = ''0'' \<or> hd k \<noteq> CHR ''0'')
         \<and> length k \<le> 10 \<and> digits_value 0 k < 4294967295
      then Some (digits_value 0 k) else None)"

definition precedes :: "string \<Rightarrow> string \<Rightarrow> bool" where
  "precedes k k' =
     (case array_index k of
        Some i \<Rightarrow> (case array_index k' of Some j \<Rightarrow> i < j | None \<Rightarrow> True)
      | None \<Rightarrow> False)"

text \<open>\<^verbatim>\<open>obj[k] = v\<close>: an existing property keeps its place, a new one takes the place
  the order of enumeration gives it.\<close>

fun assign :: "string \<Rightarrow> jsval \<Rightarrow> data \<Rightarrow> data" where
  "assign k v [] = [(k, v)]"
| "assign k v ((k', v') # kvs) =
     (if k = k' then (k, v) # kvs
      else if precedes k k' then (k, v) # (k', v') # kvs
      else (k', v') # assign k v kvs)"

text \<open>\<^verbatim>\<open>k in obj\<close>.\<close>

definition has_key :: "string \<Rightarrow> data \<Rightarrow> bool" where
  "has_key k kvs = (k \<in> set (map fst kvs))"

fun get :: "jsval \<Rightarrow> string \<Rightarrow> jsval" where
  "get (Obj _ fs) k = lookup k fs"
| "get _ k = Undefined"

fun string_of_nat :: "nat \<Rightarrow> string" where
  "string_of_nat n =
     (if n < 10 then [char_of (48 + n)]
      else string_of_nat (n div 10) @ [char_of (48 + n mod 10)])"

declare string_of_nat.simps [simp del]

definition string_of_int :: "int \<Rightarrow> string" where
  "string_of_int i = (if i < 0 then CHR ''-'' # string_of_nat (nat (- i)) else string_of_nat (nat i))"

text \<open>
  \<^verbatim>\<open>String(x)\<close>. The module applies it to primitives only (the children of a vnode
  that are neither an object nor a function, a falsy vnode type, a string or number
  child); numbers are integers of a magnitude that JavaScript prints in decimal notation
  (below \<open>10\<^sup>2\<^sup>1\<close>). An array prints its elements separated by commas, \<^verbatim>\<open>null\<close> and
  \<^verbatim>\<open>undefined\<close> among them as nothing; an object without a \<^verbatim>\<open>toString\<close> of its own
  prints as \<^verbatim>\<open>[object Object]\<close>. The source text of a function is not modelled.
\<close>

fun join_commas :: "string list \<Rightarrow> string" where
  "join_commas [] = []"
| "join_commas [x] = x"
| "join_commas (x # y # ys) = x @ '','' @ join_commas (y # ys)"

fun String :: "jsval \<Rightarrow> string" where
  "String (Str s) = s"
| "String (Num n) = string_of_int n"
| "String NaN = ''NaN''"
| "String (Bool b) = (if b then ''true'' else ''false'')"
| "String (Sym k) = ''Symbol('' @ k @ '')''"
| "String Undefined = ''undefined''"
| "String Null = ''null''"
| "String (Arr t xs) = join_commas (map (\<lambda>x. if x = Undefined \<or> x = Null then [] else String x) xs)"
| "String (Fn i) = ''function () { [code] }''"
| "String (Obj t fs) = ''[object Object]''"
| "String (VN a) = ''[object Object]''"
| "String (Inst i) = ''[object Object]''"

section \<open>Shape flags and patch flags\<close>

text \<open>
  The bitwise operators of JavaScript work on the 32-bit two's complement image of their
  operands and return a signed 32-bit value.
\<close>

definition js_or :: "int \<Rightarrow> int \<Rightarrow> int" where
  "js_or a b = sint ((word_of_int a :: 32 word) OR word_of_int b)"

definition js_and :: "int \<Rightarrow> int \<Rightarrow> int" where
  "js_and a b = sint ((word_of_int a :: 32 word) AND word_of_int b)"

text \<open>\<^verbatim>\<open>packages/shared/src/shapeFlags.ts\<close>.\<close>

definition ELEMENT :: int where "ELEMENT = 1"
definition FUNCTIONAL_COMPONENT :: int where "FUNCTIONAL_COMPONENT = 2"
definition STATEFUL_COMPONENT :: int where "STATEFUL_COMPONENT = 4"
definition TEXT_CHILDREN :: int where "TEXT_CHILDREN = 8"
definition ARRAY_CHILDREN :: int where "ARRAY_CHILDREN = 16"
definition SLOTS_CHILDREN :: int where "SLOTS_CHILDREN = 32"
definition TELEPORT :: int where "TELEPORT = 64"
definition SUSPENSE :: int where "SUSPENSE = 128"
definition COMPONENT_SHOULD_KEEP_ALIVE :: int where "COMPONENT_SHOULD_KEEP_ALIVE = 256"
definition COMPONENT_KEPT_ALIVE :: int where "COMPONENT_KEPT_ALIVE = 512"
definition COMPONENT :: int where
  "COMPONENT = js_or STATEFUL_COMPONENT FUNCTIONAL_COMPONENT"

lemmas ShapeFlags_defs =
  ELEMENT_def FUNCTIONAL_COMPONENT_def STATEFUL_COMPONENT_def TEXT_CHILDREN_def
  ARRAY_CHILDREN_def SLOTS_CHILDREN_def TELEPORT_def SUSPENSE_def
  COMPONENT_SHOULD_KEEP_ALIVE_def COMPONENT_KEPT_ALIVE_def

text \<open>
  Modelled from the spec: the \<^verbatim>\<open>PatchFlags\<close> and \<^verbatim>\<open>SlotFlags\<close> enums of
  \<^verbatim>\<open>@vue/shared\<close> are imported by \<^verbatim>\<open>vnode.ts\<close> but their declarations are not among
  the sources. The spec gives their shape: positive values are single bits that are
  OR-combined, the hoisted sentinel is negative (\<^verbatim>\<open>cloneVNode\<close> itself compares the patch
  flag with \<^verbatim>\<open>-1\<close> under the comment "hoisted node"). The numbers are those of the
  enum this code is compiled against.
\<close>

definition TEXT :: int where "TEXT = 1"
definition CLASS :: int where "CLASS = 2"
definition STYLE :: int where "STYLE = 4"
definition PROPS :: int where "PROPS = 8"
definition FULL_PROPS :: int where "FULL_PROPS = 16"
definition HYDRATE_EVENTS :: int where "HYDRATE_EVENTS = 32"
definition DYNAMIC_SLOTS :: int where "DYNAMIC_SLOTS = 1024"
definition HOISTED :: int where "HOISTED = - 1"
definition BAIL :: int where "BAIL = - 2"

lemmas PatchFlags_defs =
  TEXT_def CLASS_def STYLE_def PROPS_def FULL_PROPS_def HYDRATE_EVENTS_def
  DYNAMIC_SLOTS_def HOISTED_def BAIL_def

definition SlotFlags_STABLE :: int where "SlotFlags_STABLE = 1"
definition SlotFlags_DYNAMIC :: int where "SlotFlags_DYNAMIC = 2"
definition SlotFlags_FORWARDED :: int where "SlotFlags_FORWARDED = 3"

text \<open>\<^verbatim>\<open>InternalObjectKey\<close>.\<close>

definition InternalObjectKey :: string where
  "InternalObjectKey = ''__vInternal''"

section \<open>Class and style normalisation\<close>

text \<open>
  \<^verbatim>\<open>String.prototype.trim\<close>, on strings of ASCII characters: tab, line feed, vertical
  tab, form feed, carriage return and space are the white space.
\<close>

definition is_space :: "char \<Rightarrow> bool" where
  "is_space c = ((of_char c :: nat) \<in> {9, 10, 11, 12, 13, 32})"

definition trim :: "string \<Rightarrow> string" where
  "trim s = rev (dropWhile is_space (rev (dropWhile is_space s)))"

text \<open>
  \<^verbatim>\<open>for (const name in value)\<close> visits the keys of the property list in order. A
  reference to a vnode or to a component instance has no properties in this model.
\<close>

fun own_props :: "jsval \<Rightarrow> data" where
  "own_props (Obj t fs) = fs"
| "own_props v = []"

definition keys :: "data \<Rightarrow> string list" where
  "keys fs = map fst fs"

fun normalizeClass :: "jsval \<Rightarrow> string"
  and normalizeClass_array :: "jsval list \<Rightarrow> string" where
  "normalizeClass (Str s) = trim s"
| "normalizeClass (Arr t xs) = trim (normalizeClass_array xs)"
| "normalizeClass (Obj t fs) =
     trim (concat (map (\<lambda>name. if truthy (lookup name fs) then name @ '' '' else '''') (keys fs)))"
| "normalizeClass v = trim ''''"
| "normalizeClass_array [] = ''''"
| "normalizeClass_array (x # xs) =
     (let normalized = normalizeClass x
      in (if normalized \<noteq> '''' then normalized @ '' '' else '''') @ normalizeClass_array xs)"

text \<open>\<^verbatim>\<open>cssText.replace(styleCommentRE, '')\<close>: every \<^verbatim>\<open>/* ... */\<close> is removed, each
  ending at the first \<^verbatim>\<open>*/\<close> after its opening; an opening that is never closed stays.\<close>

fun has_close :: "string \<Rightarrow> bool" where
  "has_close (x # y # r) = ((x = CHR ''*'' \<and> y = CHR ''/'') \<or> has_close (y # r))"
| "has_close r = False"

fun strip_comments :: "string \<Rightarrow> string"
  and skip_comment :: "string \<Rightarrow> string" where
  "strip_comments [] = []"
| "strip_comments (c # cs) =
     (case cs of
        d # r \<Rightarrow> (if c = CHR ''/'' \<and> d = CHR ''*'' \<and> has_close r then skip_comment r
                  else c # strip_comments cs)
      | [] \<Rightarrow> [c])"
| "skip_comment (x # y # r) =
     (if x = CHR ''*'' \<and> y = CHR ''/'' then strip_comments r else skip_comment (y # r))"
| "skip_comment r = []"

text \<open>\<^verbatim>\<open>listDelimiterRE\<close>: a semicolon that is not followed by a closing parenthesis
  with no opening one in between.\<close>

fun closes_paren :: "string \<Rightarrow> bool" where
  "closes_paren [] = False"
| "closes_paren (c # cs) =
     (if c = CHR '')'' then True else if c = CHR ''('' then False else closes_paren cs)"

fun split_list :: "string \<Rightarrow> string \<Rightarrow> string list" where
  "split_list cur [] = [cur]"
| "split_list cur (c # cs) =
     (if c = CHR '';'' \<and> \<not> closes_paren cs then cur # split_list [] cs
      else split_list (cur @ [c]) cs)"

text \<open>\<^verbatim>\<open>item.split(propertyDelimiterRE)\<close>: the text before the first colon that has
  something after it, and all of the text after that colon; \<open>None\<close> when the split has
  one piece only.\<close>

fun split_property :: "string \<Rightarrow> string \<Rightarrow> (string \<times> string) option" where
  "split_property before [] = None"
| "split_property before (c # cs) =
     (if c = CHR '':'' \<and> cs \<noteq> [] then Some (before, cs) else split_property (before @ [c]) cs)"

definition parseStringStyle :: "string \<Rightarrow> data" where
  "parseStringStyle cssText =
     fold (\<lambda>item ret.
             if item \<noteq> []
             then (case split_property [] item of
                     Some (k, v) \<Rightarrow> assign (trim k) (Str (trim v)) ret
                   | None \<Rightarrow> ret)
             else ret)
          (split_list [] (strip_comments cssText)) []"

text \<open>\<^verbatim>\<open>for (const key in normalized) res[key] = normalized[key]\<close>.\<close>

definition copy_props :: "data \<Rightarrow> data \<Rightarrow> data" where
  "copy_props normalized res = fold (\<lambda>k. assign k (lookup k normalized)) (keys normalized) res"

text \<open>
  \<^verbatim>\<open>normalizeStyle\<close>. The second argument is the next unused identity tag; the object
  \<^verbatim>\<open>res\<close> of the array case takes one, and so does every object that
  \<^verbatim>\<open>parseStringStyle\<close> builds.
\<close>

fun normalizeStyle :: "jsval \<Rightarrow> nat \<Rightarrow> jsval \<times> nat"
  and normalizeStyle_array :: "jsval list \<Rightarrow> data \<Rightarrow> nat \<Rightarrow> data \<times> nat" where
  "normalizeStyle (Arr t xs) n =
     (case normalizeStyle_array xs [] (Suc n) of (res, n') \<Rightarrow> (Obj n res, n'))"
| "normalizeStyle (Str s) n = (Str s, n)"
| "normalizeStyle (Obj t fs) n = (Obj t fs, n)"
| "normalizeStyle (VN a) n = (VN a, n)"
| "normalizeStyle (Inst i) n = (Inst i, n)"
| "normalizeStyle v n = (Undefined, n)"
| "normalizeStyle_array [] res n = (res, n)"
| "normalizeStyle_array (item # xs) res n =
     (case (case item of Str s \<Rightarrow> (Obj n (parseStringStyle s), Suc n) | _ \<Rightarrow> normalizeStyle item n) of
        (normalized, n') \<Rightarrow>
          normalizeStyle_array xs
            (if truthy normalized then copy_props (own_props normalized) res else res) n')"

section \<open>Merging properties\<close>

text \<open>
  Modelled from the spec: \<^verbatim>\<open>isOn\<close> of \<^verbatim>\<open>@vue/shared\<close> is not among the sources.
  The handler-naming convention the spec refers to is \<^verbatim>\<open>on\<close> followed by a character
  that is not a lower-case letter.
\<close>

definition is_lower :: "char \<Rightarrow> bool" where
  "is_lower c = (97 \<le> (of_char c :: nat) \<and> (of_char c :: nat) \<le> 122)"

fun isOn :: "string \<Rightarrow> bool" where
  "isOn (a # b # c # r) = (a = CHR ''o'' \<and> b = CHR ''n'' \<and> \<not> is_lower c)"
| "isOn r = False"

text \<open>\<^verbatim>\<open>Array.prototype.includes\<close> compares with SameValueZero: as \<^verbatim>\<open>===\<close>, except
  that \<open>NaN\<close> is found.\<close>

definition array_includes :: "jsval list \<Rightarrow> jsval \<Rightarrow> bool" where
  "array_includes xs v = (\<exists>x \<in> set xs. (x = NaN \<and> v = NaN) \<or> strict_eq x v)"

text \<open>An argument of \<^verbatim>\<open>[].concat(...)\<close>: an array contributes its elements, any
  other value itself.\<close>

fun spread :: "jsval \<Rightarrow> jsval list" where
  "spread (Arr t xs) = xs"
| "spread v = [v]"

text \<open>The body of the inner loop of \<^verbatim>\<open>mergeProps\<close>, for one key of \<open>toMerge\<close>.
  The state is \<open>ret\<close> and the next unused identity tag.\<close>

definition merge_key :: "data \<Rightarrow> string \<Rightarrow> data \<times> nat \<Rightarrow> data \<times> nat" where
  "merge_key toMerge k = (\<lambda>(ret, n).
     if k = ''class''
     then (if \<not> strict_eq (lookup ''class'' ret) (lookup ''class'' toMerge)
           then (assign ''class''
                   (Str (normalizeClass (Arr n [lookup ''class'' ret, lookup ''class'' toMerge]))) ret,
                 Suc n)
           else (ret, n))
     else if k = ''style''
     then (case normalizeStyle (Arr n [lookup ''style'' ret, lookup ''style'' toMerge]) (Suc n) of
             (style, n') \<Rightarrow> (assign ''style'' style ret, n'))
     else if isOn k
     then (let existing = lookup k ret; incoming = lookup k toMerge
           in if truthy incoming \<and> \<not> strict_eq existing incoming
                 \<and> \<not> (isArray existing \<and> array_includes (spread existing) incoming)
              then (if truthy existing
                    then (assign k (Arr n (spread existing @ spread incoming)) ret, Suc n)
                    else (assign k incoming ret, n))
              else (ret, n))
     else if k \<noteq> ''''
     then (assign k (lookup k toMerge) ret, n)
     else (ret, n))"

definition mergeProps :: "data list \<Rightarrow> nat \<Rightarrow> data \<times> nat" where
  "mergeProps args n = fold (\<lambda>toMerge. fold (merge_key toMerge) (keys toMerge)) args ([], n)"

section \<open>Virtual nodes\<close>

text \<open>The four marker symbols declared at the top of \<^verbatim>\<open>vnode.ts\<close>.\<close>

definition Fragment :: jsval where "Fragment = Sym ''v-fgt''"
definition Text :: jsval where "Text = Sym ''v-txt''"
definition Comment :: jsval where "Comment = Sym ''v-cmt''"
definition Static :: jsval where "Static = Sym ''v-stc''"

text \<open>
  A reference to a \<^verbatim>\<open>VNode[]\<close> that block tracking fills: the shared constant
  \<^verbatim>\<open>EMPTY_ARR\<close>, or an array of the store.
\<close>

datatype arr_ref = EMPTY_ARR | ArrAt nat

text \<open>
  The interface \<^verbatim>\<open>VNode\<close>. Fields that hold handles of the host renderer, of a
  component instance or of the application are opaque identities (\<open>None\<close> is
  \<^verbatim>\<open>null\<close>); \<open>memo\<close> is \<open>None\<close> when the optional property is absent.
\<close>

record vnode =
  type :: jsval
  props :: "data option"
  key :: jsval
  ref :: jsval
  scopeId :: "string option"
  slotScopeIds :: "string list option"
  children :: jsval
  component :: "nat option"
  suspense :: "nat option"
  ssContent :: "nat option"
  ssFallback :: "nat option"
  dirs :: "nat option"
  transition :: "nat option"
  el :: "nat option"
  anchor :: "nat option"
  target :: "nat option"
  targetAnchor :: "nat option"
  staticCount :: int
  shapeFlag :: int
  patchFlag :: int
  dynamicProps :: "string list option"
  dynamicChildren :: "arr_ref option"
  appContext :: "nat option"
  ctx :: "nat option"
  memo :: "jsval list option"
  ce :: "nat option"

section \<open>The state of a render pass\<close>

text \<open>
  A component instance as far as this module reads it: its identity and the slot flag
  \<^verbatim>\<open>instance.slots._\<close>.
\<close>

record component_instance =
  iid :: nat
  slots_flag :: jsval

text \<open>
  The module-level variables (\<^verbatim>\<open>blockStack\<close>, \<^verbatim>\<open>currentBlock\<close>,
  \<^verbatim>\<open>isBlockTreeEnabled\<close>), the two variables of the render context that
  \<^verbatim>\<open>vnode.ts\<close> imports, and the store. Vnodes and the arrays that block tracking
  fills are JavaScript objects that several variables point to and that the code updates
  in place, so both live in a store and are named by their address (the index at which they
  were allocated). \<open>fresh\<close> is the next unused identity tag for an array or object
  value, \<open>warnings\<close> the messages passed to \<^verbatim>\<open>warn\<close>, oldest first.
\<close>

record state =
  vnodes :: "vnode list"
  arrays :: "nat list list"
  blockStack :: "nat option list"
  currentBlock :: "nat option"
  isBlockTreeEnabled :: int
  currentRenderingInstance :: "component_instance option"
  currentScopeId :: "string option"
  fresh :: nat
  warnings :: "string list"

text \<open>The state when the module has just been loaded.\<close>

definition init_state :: state where
  "init_state =
     \<lparr>vnodes = [], arrays = [], blockStack = [], currentBlock = None,
      isBlockTreeEnabled = 1, currentRenderingInstance = None, currentScopeId = None,
      fresh = 0, warnings = []\<rparr>"

text \<open>
  A call returns a value, throws, or does not come back: \<^verbatim>\<open>cloneVNode\<close> follows the
  \<^verbatim>\<open>ssContent\<close>, \<^verbatim>\<open>ssFallback\<close> and (in a development build) \<^verbatim>\<open>children\<close>
  references of the store, which may form a cycle, and \<^verbatim>\<open>normalizeChildren\<close> calls
  itself on what a slot function returns. The functions that recurse in this way take the
  depth of call stack they may use, and answer \<open>OutOfFuel\<close> when it does not suffice.
\<close>

datatype 'a outcome = Returns 'a | Throws error | OutOfFuel

definition bind :: "'a outcome \<Rightarrow> ('a \<Rightarrow> 'b outcome) \<Rightarrow> 'b outcome" where
  "bind m f = (case m of Returns x \<Rightarrow> f x | Throws x \<Rightarrow> Throws x | OutOfFuel \<Rightarrow> OutOfFuel)"

lemma bind_cong [fundef_cong]:
  "m = m' \<Longrightarrow> (\<And>x. m' = Returns x \<Longrightarrow> f x = f' x) \<Longrightarrow> bind m f = bind m' f'"
  by (cases m') (simp_all add: bind_def)

lemma bind_simps [simp]:
  "bind (Returns x) f = f x" "bind (Throws t) f = Throws t" "bind OutOfFuel f = OutOfFuel"
  by (simp_all add: bind_def)

text \<open>
  What the build, the imported modules and the caller fix: the compile-time flags
  \<^verbatim>\<open>__DEV__\<close> and \<^verbatim>\<open>__FEATURE_SUSPENSE__\<close> (the \<^verbatim>\<open>__COMPAT__\<close> build is not
  modelled), the property \<^verbatim>\<open>__vccOpts\<close> of a class component (\<open>None\<close> when the
  function has none), the predicates of the reactivity package, the set of components that
  hot module replacement has marked dirty, \<^verbatim>\<open>SuspenseImpl.normalize\<close>, and the
  functions of the caller. \<open>call e i s\<close> is the call \<^verbatim>\<open>slot()\<close> of the function
  with the identity tag \<open>i\<close> in the state \<open>s\<close>, as \<^verbatim>\<open>normalizeChildren\<close> makes it
  (for a compiled slot, with the marker \<^verbatim>\<open>slot._d\<close> cleared for the time of the call):
  the body is code of the caller, which may build vnodes, open and close blocks, warn, throw
  or not come back, so the call answers with the value returned and the state it leaves.
\<close>

record env =
  DEV :: bool
  FEATURE_SUSPENSE :: bool
  vccOpts :: "jsval \<Rightarrow> jsval option"
  isProxy :: "jsval \<Rightarrow> bool"
  isRef :: "jsval \<Rightarrow> bool"
  toRaw :: "jsval \<Rightarrow> jsval"
  hmrDirtyComponents :: "jsval \<Rightarrow> bool"
  suspense_normalize :: "nat \<Rightarrow> state \<Rightarrow> state"
  call :: "nat \<Rightarrow> state \<Rightarrow> (jsval \<times> state) outcome"

text \<open>
  Modelled from the spec: \<^verbatim>\<open>isClassComponent\<close> (\<^verbatim>\<open>component.ts\<close>),
  \<^verbatim>\<open>isTeleport\<close>, \<^verbatim>\<open>isSuspense\<close> (\<^verbatim>\<open>components/\<close>) and
  \<^verbatim>\<open>NULL_DYNAMIC_COMPONENT\<close> (\<^verbatim>\<open>helpers/resolveAssets.ts\<close>) are imported by
  \<^verbatim>\<open>vnode.ts\<close> and are not among the sources. A class-style component wrapper is a
  function that exposes an options object, the Teleport and Suspense implementations are
  the objects that carry the marker property, and the null dynamic component is a marker
  symbol of its own.
\<close>

definition isClassComponent :: "env \<Rightarrow> jsval \<Rightarrow> bool" where
  "isClassComponent e v = (isFunction v \<and> vccOpts e v \<noteq> None)"

definition isTeleport :: "jsval \<Rightarrow> bool" where
  "isTeleport v = truthy (get v ''__isTeleport'')"

definition isSuspense :: "jsval \<Rightarrow> bool" where
  "isSuspense v = truthy (get v ''__isSuspense'')"

definition NULL_DYNAMIC_COMPONENT :: jsval where
  "NULL_DYNAMIC_COMPONENT = Sym ''v-ndc''"

text \<open>A development build and a production build in which nothing is reactive, no
  component is a class, no component is dirty, the Suspense normaliser leaves the
  state alone, and every function of the caller returns \<^verbatim>\<open>undefined\<close> at once.\<close>

definition dev_env :: env where
  "dev_env = \<lparr>DEV = True, FEATURE_SUSPENSE = True, vccOpts = (\<lambda>_. None), isProxy = (\<lambda>_. False),
               isRef = (\<lambda>_. False), toRaw = (\<lambda>v. v), hmrDirtyComponents = (\<lambda>_. False),
               suspense_normalize = (\<lambda>a s. s), call = (\<lambda>i s. Returns (Undefined, s))\<rparr>"

definition prod_env :: env where
  "prod_env = dev_env\<lparr>DEV := False\<rparr>"

definition warn :: "string \<Rightarrow> state \<Rightarrow> state" where
  "warn msg s = s\<lparr>warnings := warnings s @ [msg]\<rparr>"

text \<open>Reading and updating the store.\<close>

definition nth_opt :: "'a list \<Rightarrow> nat \<Rightarrow> 'a option" where
  "nth_opt xs i = (if i < length xs then Some (xs ! i) else None)"

abbreviation vnode_at :: "state \<Rightarrow> nat \<Rightarrow> vnode option" where
  "vnode_at s a \<equiv> nth_opt (vnodes s) a"

abbreviation array_at :: "state \<Rightarrow> nat \<Rightarrow> nat list option" where
  "array_at s r \<equiv> nth_opt (arrays s) r"

definition alloc_vnode :: "vnode \<Rightarrow> state \<Rightarrow> nat \<times> state" where
  "alloc_vnode v s = (length (vnodes s), s\<lparr>vnodes := vnodes s @ [v]\<rparr>)"

definition update_vnode :: "nat \<Rightarrow> (vnode \<Rightarrow> vnode) \<Rightarrow> state \<Rightarrow> state" where
  "update_vnode a f s = s\<lparr>vnodes := (vnodes s)[a := f (vnodes s ! a)]\<rparr>"

text \<open>\<^verbatim>\<open>arr.push(vnode)\<close> on an array of the store.\<close>

definition array_push :: "nat \<Rightarrow> nat \<Rightarrow> state \<Rightarrow> state" where
  "array_push r a s = s\<lparr>arrays := (arrays s)[r := arrays s ! r @ [a]]\<rparr>"

text \<open>The contents of the array a reference points to.\<close>

fun elements :: "state \<Rightarrow> arr_ref \<Rightarrow> nat list" where
  "elements s EMPTY_ARR = []"
| "elements s (ArrAt r) = (case array_at s r of Some xs \<Rightarrow> xs | None \<Rightarrow> [])"

section \<open>Keys and references\<close>

text \<open>The identity of the component instance that is rendering, as a value.\<close>

definition instance_ref :: "state \<Rightarrow> jsval" where
  "instance_ref s = (case currentRenderingInstance s of None \<Rightarrow> Null | Some i \<Rightarrow> Inst (iid i))"

text \<open>\<^verbatim>\<open>obj[k] = v\<close> on a value: only plain objects keep the property in this model.\<close>

fun set_prop :: "jsval \<Rightarrow> string \<Rightarrow> jsval \<Rightarrow> jsval" where
  "set_prop (Obj t fs) k v = Obj t (assign k v fs)"
| "set_prop x k v = x"

definition normalizeKey :: "data \<Rightarrow> jsval" where
  "normalizeKey ps = (let k = lookup ''key'' ps in if \<not> is_nullish k then k else Null)"

text \<open>\<^verbatim>\<open>normalizeRef\<close>; the object it builds takes a new identity tag.\<close>

definition normalizeRef :: "env \<Rightarrow> data \<Rightarrow> state \<Rightarrow> jsval \<times> state" where
  "normalizeRef e ps s =
     (let r0 = lookup ''ref'' ps;
          r = (case r0 of Num n \<Rightarrow> Str (string_of_int n) | NaN \<Rightarrow> Str ''NaN'' | _ \<Rightarrow> r0)
      in if \<not> is_nullish r
         then (if isString r \<or> isRef e r \<or> isFunction r
               then (Obj (fresh s)
                       [(''i'', instance_ref s), (''r'', r), (''k'', lookup ''ref_key'' ps),
                        (''f'', Bool (truthy (lookup ''ref_for'' ps)))],
                     s\<lparr>fresh := Suc (fresh s)\<rparr>)
               else (r, s))
         else (Null, s))"

section \<open>Outcomes of a call\<close>

text \<open>The vnode a call returned, as the store holds it when the call returns.\<close>

definition returned_vnode :: "(nat \<times> state) outcome \<Rightarrow> vnode option" where
  "returned_vnode r = (case r of Returns (a, s) \<Rightarrow> vnode_at s a | _ \<Rightarrow> None)"

definition returned_state :: "(nat \<times> state) outcome \<Rightarrow> state option" where
  "returned_state r = (case r of Returns (a, s) \<Rightarrow> Some s | _ \<Rightarrow> None)"

section \<open>Cloning\<close>

text \<open>\<^verbatim>\<open>extraProps ? mergeProps(props || {}, extraProps) : props\<close>.\<close>

definition clone_props :: "vnode \<Rightarrow> data option \<Rightarrow> state \<Rightarrow> data option \<times> state" where
  "clone_props v extraProps s =
     (case extraProps of
        Some ex \<Rightarrow>
          (case mergeProps [case props v of Some p \<Rightarrow> p | None \<Rightarrow> [], ex] (fresh s) of
             (ret, n) \<Rightarrow> (Some ret, s\<lparr>fresh := n\<rparr>))
      | None \<Rightarrow> (props v, s))"

text \<open>The \<^verbatim>\<open>ref\<close> of the clone. \<^verbatim>\<open>ref.concat(x)\<close> spreads \<open>x\<close> when it is an
  array; the array literal \<^verbatim>\<open>[ref, x]\<close> does not.\<close>

definition clone_ref :: "env \<Rightarrow> vnode \<Rightarrow> data option \<Rightarrow> bool \<Rightarrow> state \<Rightarrow> jsval \<times> state" where
  "clone_ref e v extraProps mergeRef s =
     (case extraProps of
        Some ex \<Rightarrow>
          if truthy (lookup ''ref'' ex)
          then (if mergeRef \<and> truthy (ref v)
                then (case normalizeRef e ex s of
                        (r, s') \<Rightarrow>
                          (Arr (fresh s') (case ref v of Arr t xs \<Rightarrow> xs @ spread r | x \<Rightarrow> [x, r]),
                           s'\<lparr>fresh := Suc (fresh s')\<rparr>))
                else normalizeRef e ex s)
          else (ref v, s)
      | None \<Rightarrow> (ref v, s))"

definition clone_patchFlag :: "vnode \<Rightarrow> data option \<Rightarrow> int" where
  "clone_patchFlag v extraProps =
     (if extraProps \<noteq> None \<and> \<not> strict_eq (type v) Fragment
      then (if patchFlag v = - 1 then FULL_PROPS else js_or (patchFlag v) FULL_PROPS)
      else patchFlag v)"

text \<open>The object literal of \<^verbatim>\<open>cloneVNode\<close>, once the parts that need a call are known.
  The optional \<^verbatim>\<open>memo\<close> is not among the properties copied.\<close>

definition cloned_vnode ::
  "vnode \<Rightarrow> data option \<Rightarrow> jsval \<Rightarrow> jsval \<Rightarrow> int \<Rightarrow> nat option \<Rightarrow> nat option \<Rightarrow> vnode" where
  "cloned_vnode v mergedProps rf ch pf ssc ssf =
     \<lparr>type = type v, props = mergedProps,
      key = (case mergedProps of Some mp \<Rightarrow> normalizeKey mp | None \<Rightarrow> Null),
      ref = rf, scopeId = scopeId v, slotScopeIds = slotScopeIds v, children = ch,
      component = component v, suspense = suspense v, ssContent = ssc, ssFallback = ssf,
      dirs = dirs v, transition = transition v, el = el v, anchor = anchor v,
      target = target v, targetAnchor = targetAnchor v, staticCount = staticCount v,
      shapeFlag = shapeFlag v, patchFlag = pf, dynamicProps = dynamicProps v,
      dynamicChildren = dynamicChildren v, appContext = appContext v, ctx = ctx v,
      memo = None, ce = ce v\<rparr>"

text \<open>
  \<^verbatim>\<open>cloneVNode\<close> and \<^verbatim>\<open>deepCloneVNode\<close>. The properties of the object literal are
  evaluated in the order of the source: merged properties, reference, children, suspense
  content, suspense fallback. \<^verbatim>\<open>deepCloneVNode\<close> is applied to the elements of a children
  array under the cast \<^verbatim>\<open>children as VNode[]\<close>: on \<^verbatim>\<open>null\<close> and \<^verbatim>\<open>undefined\<close>
  the destructuring in \<^verbatim>\<open>cloneVNode\<close> throws a \<open>TypeError\<close>; any other element
  that is not a vnode is outside the model.
\<close>

fun cloneVNode :: "env \<Rightarrow> nat \<Rightarrow> nat \<Rightarrow> data option \<Rightarrow> bool \<Rightarrow> state \<Rightarrow> (nat \<times> state) outcome"
  and deepCloneVNode :: "env \<Rightarrow> nat \<Rightarrow> jsval \<Rightarrow> state \<Rightarrow> (nat \<times> state) outcome"
  and deepCloneVNodes :: "env \<Rightarrow> nat \<Rightarrow> jsval list \<Rightarrow> state \<Rightarrow> (jsval list \<times> state) outcome" where
  "cloneVNode e 0 a extraProps mergeRef s = OutOfFuel"
| "cloneVNode e (Suc n) a extraProps mergeRef s =
     (case vnode_at s a of
        None \<Rightarrow> Throws TypeError
      | Some v \<Rightarrow>
          (case clone_props v extraProps s of
             (mergedProps, s1) \<Rightarrow>
               (case clone_ref e v extraProps mergeRef s1 of
                  (rf, s2) \<Rightarrow>
                    bind (if DEV e \<and> patchFlag v = HOISTED \<and> isArray (children v)
                          then bind (deepCloneVNodes e n (spread (children v)) s2)
                                 (\<lambda>(cs, s'). Returns (Arr (fresh s') cs, s'\<lparr>fresh := Suc (fresh s')\<rparr>))
                          else Returns (children v, s2))
                      (\<lambda>(ch, s3).
                         bind (case ssContent v of
                                 None \<Rightarrow> Returns (None, s3)
                               | Some c \<Rightarrow> bind (cloneVNode e n c None False s3)
                                             (\<lambda>(c', s'). Returns (Some c', s')))
                           (\<lambda>(ssc, s4).
                              bind (case ssFallback v of
                                      None \<Rightarrow> Returns (None, s4)
                                    | Some c \<Rightarrow> bind (cloneVNode e n c None False s4)
                                                  (\<lambda>(c', s'). Returns (Some c', s')))
                                (\<lambda>(ssf, s5).
                                   Returns (alloc_vnode
                                     (cloned_vnode v mergedProps rf ch (clone_patchFlag v extraProps) ssc ssf)
                                     s5)))))))"
| "deepCloneVNode e 0 x s = OutOfFuel"
| "deepCloneVNode e (Suc n) x s =
     (case x of
        VN a \<Rightarrow>
          bind (cloneVNode e n a None False s)
            (\<lambda>(c, s1).
               case vnode_at s1 a of
                 None \<Rightarrow> Throws TypeError
               | Some v \<Rightarrow>
                   if isArray (children v)
                   then bind (deepCloneVNodes e n (spread (children v)) s1)
                          (\<lambda>(cs, s2).
                             Returns (c, update_vnode c (\<lambda>w. w\<lparr>children := Arr (fresh s2) cs\<rparr>)
                                           (s2\<lparr>fresh := Suc (fresh s2)\<rparr>)))
                   else Returns (c, s1))
      | Undefined \<Rightarrow> Throws TypeError
      | Null \<Rightarrow> Throws TypeError
      | _ \<Rightarrow> Throws Unmodelled)"
| "deepCloneVNodes e n [] s = Returns ([], s)"
| "deepCloneVNodes e n (x # xs) s =
     bind (deepCloneVNode e n x s)
       (\<lambda>(c, s1). bind (deepCloneVNodes e n xs s1) (\<lambda>(cs, s2). Returns (VN c # cs, s2)))"

text \<open>
  When \<^verbatim>\<open>cloneVNode\<close> comes back. \<open>clonable e n vs a\<close> says that the vnodes which
  \<^verbatim>\<open>cloneVNode\<close> reaches from \<open>a\<close> (through \<^verbatim>\<open>ssContent\<close>, \<^verbatim>\<open>ssFallback\<close>
  and, in a development build, the children of a hoisted vnode) are all in the store
  \<open>vs\<close>, that the children arrays it maps \<^verbatim>\<open>deepCloneVNode\<close> over hold vnodes, and
  that the calls nest less than \<open>n\<close> deep.
\<close>

fun clonable :: "env \<Rightarrow> nat \<Rightarrow> vnode list \<Rightarrow> nat \<Rightarrow> bool"
  and deep_clonable :: "env \<Rightarrow> nat \<Rightarrow> vnode list \<Rightarrow> jsval \<Rightarrow> bool" where
  "clonable e 0 vs a = False"
| "clonable e (Suc n) vs a =
     (case nth_opt vs a of
        None \<Rightarrow> False
      | Some v \<Rightarrow>
          (DEV e \<and> patchFlag v = HOISTED \<and> isArray (children v)
             \<longrightarrow> list_all (deep_clonable e n vs) (spread (children v)))
          \<and> (case ssContent v of None \<Rightarrow> True | Some c \<Rightarrow> clonable e n vs c)
          \<and> (case ssFallback v of None \<Rightarrow> True | Some c \<Rightarrow> clonable e n vs c))"
| "deep_clonable e 0 vs x = False"
| "deep_clonable e (Suc n) vs x =
     (case x of
        VN a \<Rightarrow>
          clonable e n vs a
          \<and> (case nth_opt vs a of
                 None \<Rightarrow> False
               | Some v \<Rightarrow> isArray (children v)
                           \<longrightarrow> list_all (deep_clonable e n vs) (spread (children v)))
      | _ \<Rightarrow> False)"

text \<open>What a call that only allocates vnodes leaves alone: the vnodes that were there,
  and everything that block tracking keeps.\<close>

definition extends :: "state \<Rightarrow> state \<Rightarrow> bool" where
  "extends s s' \<longleftrightarrow>
     length (vnodes s) \<le> length (vnodes s')
     \<and> (\<forall>b v. vnode_at s b = Some v \<longrightarrow> vnode_at s' b = Some v)
     \<and> arrays s' = arrays s \<and> blockStack s' = blockStack s \<and> currentBlock s' = currentBlock s
     \<and> isBlockTreeEnabled s' = isBlockTreeEnabled s \<and> warnings s' = warnings s
     \<and> currentRenderingInstance s' = currentRenderingInstance s"

section \<open>Constructing vnodes\<close>

text \<open>\<^verbatim>\<open>vnode.children = children; vnode.shapeFlag |= type\<close>, the last two statements of
  \<^verbatim>\<open>normalizeChildren\<close>.\<close>

definition set_children :: "nat \<Rightarrow> jsval \<Rightarrow> int \<Rightarrow> state \<Rightarrow> state" where
  "set_children a ch ty s =
     update_vnode a (\<lambda>v. v\<lparr>children := ch, shapeFlag := js_or (shapeFlag v) ty\<rparr>) s"

text \<open>
  \<^verbatim>\<open>normalizeChildren\<close>, given the function that builds a text vnode (the source calls
  \<^verbatim>\<open>createTextVNode\<close>, which is defined from \<^verbatim>\<open>createBaseVNode\<close>, which calls
  \<^verbatim>\<open>normalizeChildren\<close>; the knot is tied below). The slot function of the
  \<^verbatim>\<open>default\<close> property is called, and what it returns is normalised in the state the
  call leaves: the vnodes the slot body has built are in the store, and on the current
  block if they were tracked. The shape flag is read again at each call, as the source
  does. A property set on the children object (\<^verbatim>\<open>_ctx\<close>, \<^verbatim>\<open>_\<close>) shows in the value
  stored in the vnode. The second argument bounds the depth of the recursion.
\<close>

fun normalizeChildren_with ::
  "(string \<Rightarrow> state \<Rightarrow> (nat \<times> state) outcome) \<Rightarrow> env \<Rightarrow> nat \<Rightarrow> nat \<Rightarrow> jsval \<Rightarrow> state
     \<Rightarrow> state outcome" where
  "normalizeChildren_with mk e 0 a ch s = OutOfFuel"
| "normalizeChildren_with mk e (Suc n) a ch s =
     (case vnode_at s a of
        None \<Rightarrow> Throws TypeError
      | Some v \<Rightarrow>
          if is_nullish ch then Returns (set_children a Null 0 s)
          else if isArray ch then Returns (set_children a ch ARRAY_CHILDREN s)
          else if isObject ch
          then (if js_and (shapeFlag v) (js_or ELEMENT TELEPORT) \<noteq> 0
                then (let slot = get ch ''default''
                      in if truthy slot
                         then (case slot of
                                 Fn i \<Rightarrow> bind (call e i s)
                                           (\<lambda>(r, s1). normalizeChildren_with mk e n a r s1)
                               | _ \<Rightarrow> Throws TypeError)
                         else Returns s)
                else (let slotFlag = get ch ''_''
                      in if \<not> truthy slotFlag \<and> \<not> has_key InternalObjectKey (own_props ch)
                         then Returns (set_children a (set_prop ch ''_ctx'' (instance_ref s))
                                         SLOTS_CHILDREN s)
                         else (case currentRenderingInstance s of
                                 Some inst \<Rightarrow>
                                   if strict_eq slotFlag (Num SlotFlags_FORWARDED)
                                   then (if strict_eq (slots_flag inst) (Num SlotFlags_STABLE)
                                         then Returns (set_children a
                                                (set_prop ch ''_'' (Num SlotFlags_STABLE)) SLOTS_CHILDREN s)
                                         else Returns (set_children a
                                                (set_prop ch ''_'' (Num SlotFlags_DYNAMIC)) SLOTS_CHILDREN
                                                (update_vnode a
                                                   (\<lambda>w. w\<lparr>patchFlag := js_or (patchFlag w) DYNAMIC_SLOTS\<rparr>) s)))
                                   else Returns (set_children a ch SLOTS_CHILDREN s)
                               | None \<Rightarrow> Returns (set_children a ch SLOTS_CHILDREN s))))
          else if isFunction ch
          then Returns (set_children a
                          (Obj (fresh s) [(''default'', ch), (''_ctx'', instance_ref s)])
                          SLOTS_CHILDREN (s\<lparr>fresh := Suc (fresh s)\<rparr>))
          else (if js_and (shapeFlag v) TELEPORT \<noteq> 0
                then bind (mk (String ch) s)
                       (\<lambda>(t, s1). Returns (set_children a (Arr (fresh s1) [VN t]) ARRAY_CHILDREN
                                             (s1\<lparr>fresh := Suc (fresh s1)\<rparr>)))
                else Returns (set_children a (Str (String ch)) TEXT_CHILDREN s)))"

declare normalizeChildren_with.simps [simp del]

text \<open>The vnode that the object literal of \<^verbatim>\<open>createBaseVNode\<close> describes.\<close>

definition base_vnode ::
  "state \<Rightarrow> jsval \<Rightarrow> data option \<Rightarrow> jsval \<Rightarrow> jsval \<Rightarrow> int \<Rightarrow> string list option \<Rightarrow> int \<Rightarrow> vnode" where
  "base_vnode s ty ps rf ch pf dps sf =
     \<lparr>type = ty, props = ps,
      key = (case ps of Some p \<Rightarrow> normalizeKey p | None \<Rightarrow> Null),
      ref = rf, scopeId = currentScopeId s, slotScopeIds = None, children = ch,
      component = None, suspense = None, ssContent = None, ssFallback = None,
      dirs = None, transition = None, el = None, anchor = None,
      target = None, targetAnchor = None, staticCount = 0,
      shapeFlag = sf, patchFlag = pf, dynamicProps = dps,
      dynamicChildren = None, appContext = None,
      ctx = map_option iid (currentRenderingInstance s),
      memo = None, ce = None\<rparr>"

text \<open>The condition under which \<^verbatim>\<open>createBaseVNode\<close> pushes the vnode onto
  \<^verbatim>\<open>currentBlock\<close>; \<open>sf\<close> is the parameter \<^verbatim>\<open>shapeFlag\<close>, \<open>v\<close> the vnode.\<close>

definition tracked :: "state \<Rightarrow> bool \<Rightarrow> int \<Rightarrow> vnode \<Rightarrow> bool" where
  "tracked s isBlockNode sf v =
     (isBlockTreeEnabled s > 0 \<and> \<not> isBlockNode \<and> currentBlock s \<noteq> None
      \<and> (patchFlag v > 0 \<or> js_and sf COMPONENT \<noteq> 0)
      \<and> patchFlag v \<noteq> HYDRATE_EVENTS)"

text \<open>The parameter \<^verbatim>\<open>shapeFlag = type === Fragment ? 0 : ShapeFlags.ELEMENT\<close>: an
  omitted argument is \<open>None\<close>.\<close>

definition default_shapeFlag :: "jsval \<Rightarrow> int option \<Rightarrow> int" where
  "default_shapeFlag ty shape =
     (case shape of Some x \<Rightarrow> x | None \<Rightarrow> if strict_eq ty Fragment then 0 else ELEMENT)"

text \<open>The two ways in which \<^verbatim>\<open>createBaseVNode\<close> treats the children of the vnode it
  has just built.\<close>

definition normalize_new_children ::
  "(string \<Rightarrow> state \<Rightarrow> (nat \<times> state) outcome) \<Rightarrow> env \<Rightarrow> nat \<Rightarrow> nat \<Rightarrow> jsval \<Rightarrow> int \<Rightarrow> bool
     \<Rightarrow> state \<Rightarrow> state outcome" where
  "normalize_new_children mk e fuel a ch sf needFullChildrenNormalization s =
     (if needFullChildrenNormalization
      then bind (normalizeChildren_with mk e fuel a ch s)
             (\<lambda>s'. Returns (if FEATURE_SUSPENSE e \<and> js_and sf SUSPENSE \<noteq> 0
                            then suspense_normalize e a s' else s'))
      else if truthy ch
      then Returns (update_vnode a
             (\<lambda>v. v\<lparr>shapeFlag := js_or (shapeFlag v)
                      (if isString ch then TEXT_CHILDREN else ARRAY_CHILDREN)\<rparr>) s)
      else Returns s)"

text \<open>The first part of \<^verbatim>\<open>createBaseVNode\<close>, up to the key check: the object literal
  is evaluated, the vnode allocated, its children normalised. \<open>sf\<close> is the parameter
  \<^verbatim>\<open>shapeFlag\<close>.\<close>

definition new_vnode_with ::
  "(string \<Rightarrow> state \<Rightarrow> (nat \<times> state) outcome) \<Rightarrow> env \<Rightarrow> nat \<Rightarrow> jsval \<Rightarrow> data option \<Rightarrow> jsval
     \<Rightarrow> int \<Rightarrow> string list option \<Rightarrow> int \<Rightarrow> bool \<Rightarrow> state \<Rightarrow> (nat \<times> state) outcome" where
  "new_vnode_with mk e fuel ty ps ch pf dps sf needFullChildrenNormalization s =
     (case (case ps of Some p \<Rightarrow> normalizeRef e p s | None \<Rightarrow> (Null, s)) of
        (rf, s1) \<Rightarrow>
          (case alloc_vnode (base_vnode s ty ps rf ch pf dps sf) s1 of
             (a, s2) \<Rightarrow>
               bind (normalize_new_children mk e fuel a ch sf needFullChildrenNormalization s2)
                 (\<lambda>s3. Returns (a, s3))))"

text \<open>The end of \<^verbatim>\<open>createBaseVNode\<close>: the key is validated, the vnode is tracked in
  the current block, and returned.\<close>

definition validate_and_track :: "env \<Rightarrow> nat \<Rightarrow> bool \<Rightarrow> int \<Rightarrow> state \<Rightarrow> (nat \<times> state) outcome" where
  "validate_and_track e a isBlockNode sf s =
     (case vnode_at s a of
        None \<Rightarrow> Throws TypeError
      | Some v \<Rightarrow>
          (let s1 = (if DEV e \<and> \<not> strict_eq (key v) (key v)
                     then warn ''VNode created with invalid key (NaN). VNode type:'' s
                     else s)
           in Returns (a, (if tracked s1 isBlockNode sf v
                           then array_push (the (currentBlock s1)) a s1
                           else s1))))"

text \<open>
  \<^verbatim>\<open>createBaseVNode\<close>. The optional parameters other than \<^verbatim>\<open>shapeFlag\<close> are passed
  with their defaults by the caller. The second argument bounds the depth of the
  \<^verbatim>\<open>normalizeChildren\<close> calls; a call without full normalisation of the children
  makes none.
\<close>

definition createBaseVNode_with ::
  "(string \<Rightarrow> state \<Rightarrow> (nat \<times> state) outcome) \<Rightarrow> env \<Rightarrow> nat \<Rightarrow> jsval \<Rightarrow> data option \<Rightarrow> jsval
     \<Rightarrow> int \<Rightarrow> string list option \<Rightarrow> int option \<Rightarrow> bool \<Rightarrow> bool \<Rightarrow> state \<Rightarrow> (nat \<times> state) outcome" where
  "createBaseVNode_with mk e fuel ty ps ch pf dps shape isBlockNode needFullChildrenNormalization s =
     (let sf = default_shapeFlag ty shape
      in bind (new_vnode_with mk e fuel ty ps ch pf dps sf needFullChildrenNormalization s)
           (\<lambda>(a, s3). validate_and_track e a isBlockNode sf s3))"

text \<open>\<^verbatim>\<open>arr.indexOf(x)\<close>, \<open>None\<close> for \<^verbatim>\<open>-1\<close>.\<close>

fun indexOf :: "nat list \<Rightarrow> nat \<Rightarrow> nat option" where
  "indexOf [] x = None"
| "indexOf (y # ys) x = (if y = x then Some 0 else map_option Suc (indexOf ys x))"

text \<open>\<^verbatim>\<open>arr[arr.indexOf(x)] = y\<close>: when \<open>x\<close> is not an element the assignment sets the
  property \<^verbatim>\<open>-1\<close> of the array object and no element changes.\<close>

definition array_replace :: "nat \<Rightarrow> nat \<Rightarrow> nat \<Rightarrow> state \<Rightarrow> state" where
  "array_replace r x y s =
     (case indexOf (arrays s ! r) x of
        Some i \<Rightarrow> s\<lparr>arrays := (arrays s)[r := (arrays s ! r)[i := y]]\<rparr>
      | None \<Rightarrow> s)"

text \<open>\<^verbatim>\<open>extend({}, style)\<close>: a new object with the same properties.\<close>

definition extend_empty :: "jsval \<Rightarrow> state \<Rightarrow> jsval \<times> state" where
  "extend_empty v s = (Obj (fresh s) (own_props v), s\<lparr>fresh := Suc (fresh s)\<rparr>)"

text \<open>The class and style normalisation of \<^verbatim>\<open>_createVNode\<close>.
  \<^verbatim>\<open>guardReactiveProps\<close> copies a reactive object; the copy has the same properties.\<close>

definition guardReactiveProps :: "data option \<Rightarrow> data option" where
  "guardReactiveProps ps = ps"

definition normalize_class_style :: "env \<Rightarrow> data \<Rightarrow> state \<Rightarrow> data \<times> state" where
  "normalize_class_style e p s =
     (let klass = lookup ''class'' p; style = lookup ''style'' p;
          p1 = (if truthy klass \<and> \<not> isString klass
                then assign ''class'' (Str (normalizeClass klass)) p else p)
      in if isObject style
         then (case (if isProxy e style \<and> \<not> isArray style then extend_empty style s else (style, s)) of
                 (style', s1) \<Rightarrow>
                   (case normalizeStyle style' (fresh s1) of
                      (ns, n) \<Rightarrow> (assign ''style'' ns p1, s1\<lparr>fresh := n\<rparr>)))
         else (p1, s))"

text \<open>
  \<^verbatim>\<open>_createVNode\<close>, which is also \<^verbatim>\<open>createVNode\<close>: no arguments transformer is
  registered. The second argument bounds the call stack of the \<^verbatim>\<open>cloneVNode\<close> call
  and of the \<^verbatim>\<open>normalizeChildren\<close> call.
\<close>

definition createVNode_with ::
  "(string \<Rightarrow> state \<Rightarrow> (nat \<times> state) outcome) \<Rightarrow> env \<Rightarrow> nat \<Rightarrow> jsval \<Rightarrow> data option \<Rightarrow> jsval \<Rightarrow> int
     \<Rightarrow> string list option \<Rightarrow> bool \<Rightarrow> state \<Rightarrow> (nat \<times> state) outcome" where
  "createVNode_with mk e fuel ty0 ps ch pf dps isBlockNode s =
     (case (if \<not> truthy ty0 \<or> strict_eq ty0 NULL_DYNAMIC_COMPONENT
            then (Comment,
                  if DEV e \<and> \<not> truthy ty0
                  then warn (''Invalid vnode type when creating vnode: '' @ String ty0 @ ''.'') s
                  else s)
            else (ty0, s)) of
        (ty, s0) \<Rightarrow>
          (case ty of
             VN a \<Rightarrow>
               bind (cloneVNode e fuel a ps True s0)
                 (\<lambda>(cloned, s1).
                    bind (if truthy ch then normalizeChildren_with mk e fuel cloned ch s1 else Returns s1)
                      (\<lambda>s2. case vnode_at s2 cloned of
                              None \<Rightarrow> Throws TypeError
                            | Some cv \<Rightarrow>
                                (let s3 = (if isBlockTreeEnabled s2 > 0 \<and> \<not> isBlockNode
                                              \<and> currentBlock s2 \<noteq> None
                                           then (if js_and (shapeFlag cv) COMPONENT \<noteq> 0
                                                 then array_replace (the (currentBlock s2)) a cloned s2
                                                 else array_push (the (currentBlock s2)) cloned s2)
                                           else s2)
                                 in Returns (cloned,
                                      update_vnode cloned
                                        (\<lambda>w. w\<lparr>patchFlag := js_or (patchFlag w) BAIL\<rparr>) s3))))
           | _ \<Rightarrow>
               (let ty1 = (if isClassComponent e ty then the (vccOpts e ty) else ty)
                in case (case guardReactiveProps ps of
                           Some p \<Rightarrow> (case normalize_class_style e p s0 of (p', s') \<Rightarrow> (Some p', s'))
                         | None \<Rightarrow> (None, s0)) of
                     (ps1, s1) \<Rightarrow>
                       (let sf = (if isString ty1 then ELEMENT
                                  else if FEATURE_SUSPENSE e \<and> isSuspense ty1 then SUSPENSE
                                  else if isTeleport ty1 then TELEPORT
                                  else if isObject ty1 then STATEFUL_COMPONENT
                                  else if isFunction ty1 then FUNCTIONAL_COMPONENT
                                  else 0)
                        in case (if DEV e \<and> js_and sf STATEFUL_COMPONENT \<noteq> 0 \<and> isProxy e ty1
                                 then (toRaw e ty1,
                                       warn ''Vue received a Component which was made a reactive object.'' s1)
                                 else (ty1, s1)) of
                             (ty2, s2) \<Rightarrow>
                               createBaseVNode_with mk e fuel ty2 ps1 ch pf dps (Some sf) isBlockNode True s2))))"

text \<open>\<^verbatim>\<open>createTextVNode\<close>. A text vnode has no shape bit, so the normalisation of its
  children, a string, never asks for another text vnode and calls no slot: the function
  passed for the former is not called, and one level of calls suffices.\<close>

definition createTextVNode :: "env \<Rightarrow> string \<Rightarrow> int \<Rightarrow> state \<Rightarrow> (nat \<times> state) outcome" where
  "createTextVNode e text flag =
     createVNode_with (\<lambda>t s. Throws TypeError) e 1 Text None (Str text) flag None False"

definition normalizeChildren :: "env \<Rightarrow> nat \<Rightarrow> nat \<Rightarrow> jsval \<Rightarrow> state \<Rightarrow> state outcome" where
  "normalizeChildren e = normalizeChildren_with (\<lambda>t. createTextVNode e t 0) e"

definition new_vnode ::
  "env \<Rightarrow> nat \<Rightarrow> jsval \<Rightarrow> data option \<Rightarrow> jsval \<Rightarrow> int \<Rightarrow> string list option \<Rightarrow> int \<Rightarrow> bool
     \<Rightarrow> state \<Rightarrow> (nat \<times> state) outcome" where
  "new_vnode e = new_vnode_with (\<lambda>t. createTextVNode e t 0) e"

definition createBaseVNode ::
  "env \<Rightarrow> nat \<Rightarrow> jsval \<Rightarrow> data option \<Rightarrow> jsval \<Rightarrow> int \<Rightarrow> string list option \<Rightarrow> int option \<Rightarrow> bool
     \<Rightarrow> bool \<Rightarrow> state \<Rightarrow> (nat \<times> state) outcome" where
  "createBaseVNode e = createBaseVNode_with (\<lambda>t. createTextVNode e t 0) e"

definition createVNode ::
  "env \<Rightarrow> nat \<Rightarrow> jsval \<Rightarrow> data option \<Rightarrow> jsval \<Rightarrow> int \<Rightarrow> string list option \<Rightarrow> bool
     \<Rightarrow> state \<Rightarrow> (nat \<times> state) outcome" where
  "createVNode e = createVNode_with (\<lambda>t. createTextVNode e t 0) e"

section \<open>Blocks\<close>

text \<open>
  \<^verbatim>\<open>blockStack.push((currentBlock = disableTracking ? null : []))\<close>: the top of the
  stack is the last element of the list.
\<close>

definition openBlock :: "bool \<Rightarrow> state \<Rightarrow> state" where
  "openBlock disableTracking s =
     (if disableTracking
      then s\<lparr>currentBlock := None, blockStack := blockStack s @ [None]\<rparr>
      else let r = length (arrays s)
           in s\<lparr>arrays := arrays s @ [[]], currentBlock := Some r,
                blockStack := blockStack s @ [Some r]\<rparr>)"

text \<open>
  \<^verbatim>\<open>blockStack.pop()\<close> leaves an empty stack empty, and
  \<^verbatim>\<open>blockStack[blockStack.length - 1] || null\<close> is \<^verbatim>\<open>null\<close> on an empty stack.
\<close>

definition closeBlock :: "state \<Rightarrow> state" where
  "closeBlock s =
     (let bs = butlast (blockStack s)
      in s\<lparr>blockStack := bs, currentBlock := (if bs = [] then None else last bs)\<rparr>)"

definition setBlockTracking :: "int \<Rightarrow> state \<Rightarrow> state" where
  "setBlockTracking v s = s\<lparr>isBlockTreeEnabled := isBlockTreeEnabled s + v\<rparr>"

definition setupBlock :: "nat \<Rightarrow> state \<Rightarrow> nat \<times> state" where
  "setupBlock a s =
     (let s1 = update_vnode a (\<lambda>v. v\<lparr>dynamicChildren :=
                  (if isBlockTreeEnabled s > 0
                   then (case currentBlock s of Some r \<Rightarrow> Some (ArrAt r) | None \<Rightarrow> Some EMPTY_ARR)
                   else None)\<rparr>) s;
          s2 = closeBlock s1
      in (a, (if isBlockTreeEnabled s2 > 0 \<and> currentBlock s2 \<noteq> None
              then array_push (the (currentBlock s2)) a s2 else s2)))"

text \<open>
  The states that \<^verbatim>\<open>openBlock\<close> and \<^verbatim>\<open>closeBlock\<close> keep to: \<^verbatim>\<open>currentBlock\<close>
  is the top of the stack (\<^verbatim>\<open>null\<close> when the stack is empty), and every array on the
  stack has been allocated.
\<close>

definition wf_blocks :: "state \<Rightarrow> bool" where
  "wf_blocks s \<longleftrightarrow>
     currentBlock s = (if blockStack s = [] then None else last (blockStack s))
     \<and> (\<forall>r. Some r \<in> set (blockStack s) \<longrightarrow> r < length (arrays s))"

text \<open>
  What the code of the caller is expected to keep to: a slot function, and the Suspense
  normaliser, leave the stack of blocks and \<^verbatim>\<open>currentBlock\<close> as they found them (a
  slot body that opens a block closes it before it returns).
\<close>

definition balanced_calls :: "env \<Rightarrow> bool" where
  "balanced_calls e \<longleftrightarrow>
     (\<forall>i s r s'. call e i s = Returns (r, s')
         \<longrightarrow> blockStack s' = blockStack s \<and> currentBlock s' = currentBlock s)
     \<and> (\<forall>a s. blockStack (suspense_normalize e a s) = blockStack s
              \<and> currentBlock (suspense_normalize e a s) = currentBlock s)"

text \<open>\<^verbatim>\<open>createElementBlock\<close> and \<^verbatim>\<open>createBlock\<close>: the vnode is built as a block
  node and handed to \<^verbatim>\<open>setupBlock\<close>. \<^verbatim>\<open>createElementBlock\<close> builds it without
  full normalisation of the children, for which no depth of calls is needed.\<close>

definition createElementBlock ::
  "env \<Rightarrow> jsval \<Rightarrow> data option \<Rightarrow> jsval \<Rightarrow> int \<Rightarrow> string list option \<Rightarrow> int option
     \<Rightarrow> state \<Rightarrow> (nat \<times> state) outcome" where
  "createElementBlock e ty ps ch pf dps shape s =
     bind (createBaseVNode e 0 ty ps ch pf dps shape True False s)
       (\<lambda>(a, s'). Returns (setupBlock a s'))"

definition createBlock ::
  "env \<Rightarrow> nat \<Rightarrow> jsval \<Rightarrow> data option \<Rightarrow> jsval \<Rightarrow> int \<Rightarrow> string list option
     \<Rightarrow> state \<Rightarrow> (nat \<times> state) outcome" where
  "createBlock e fuel ty ps ch pf dps s =
     bind (createVNode e fuel ty ps ch pf dps True s)
       (\<lambda>(a, s'). Returns (setupBlock a s'))"



text \<open>
  An environment for examples: the function with the tag \<open>0\<close> is the slot
  \<^verbatim>\<open>() => [createElementVNode('span', null, 'x', 1 /* TEXT */)]\<close>, every other
  function returns \<^verbatim>\<open>undefined\<close>.
\<close>

definition span_slot_env :: env where
  "span_slot_env =
     dev_env\<lparr>call := (\<lambda>i s.
        if i = 0
        then bind (createBaseVNode dev_env 0 (Str ''span'') None (Str ''x'') TEXT None None False False s)
               (\<lambda>(a, s1). Returns (Arr (fresh s1) [VN a], s1\<lparr>fresh := Suc (fresh s1)\<rparr>))
        else Returns (Undefined, s))\<rparr>"

section \<open>Comparing and normalising vnodes\<close>

definition js_not :: "int \<Rightarrow> int" where
  "js_not a = sint (NOT (word_of_int a :: 32 word))"

text \<open>\<^verbatim>\<open>isSameVNodeType\<close>. The branch for hot module replacement clears the keep-alive
  bits of both vnodes, first of \<open>n1\<close>, then of \<open>n2\<close>.\<close>

definition isSameVNodeType :: "env \<Rightarrow> nat \<Rightarrow> nat \<Rightarrow> state \<Rightarrow> (bool \<times> state) outcome" where
  "isSameVNodeType e a1 a2 s =
     (case (vnode_at s a1, vnode_at s a2) of
        (Some n1, Some n2) \<Rightarrow>
          if DEV e \<and> js_and (shapeFlag n2) COMPONENT \<noteq> 0 \<and> hmrDirtyComponents e (type n2)
          then Returns (False,
                 update_vnode a2
                   (\<lambda>v. v\<lparr>shapeFlag := js_and (shapeFlag v) (js_not COMPONENT_KEPT_ALIVE)\<rparr>)
                   (update_vnode a1
                      (\<lambda>v. v\<lparr>shapeFlag := js_and (shapeFlag v) (js_not COMPONENT_SHOULD_KEEP_ALIVE)\<rparr>)
                      s))
          else Returns (strict_eq (type n1) (type n2) \<and> strict_eq (key n1) (key n2), s)
      | _ \<Rightarrow> Throws TypeError)"

definition cloneIfMounted :: "env \<Rightarrow> nat \<Rightarrow> nat \<Rightarrow> state \<Rightarrow> (nat \<times> state) outcome" where
  "cloneIfMounted e fuel a s =
     (case vnode_at s a of
        None \<Rightarrow> Throws TypeError
      | Some child \<Rightarrow>
          if (el child = None \<and> patchFlag child \<noteq> HOISTED) \<or> memo child \<noteq> None
          then Returns (a, s)
          else cloneVNode e fuel a None False s)"

text \<open>
  The type \<^verbatim>\<open>VNodeChild\<close> of the argument of \<^verbatim>\<open>normalizeVNode\<close>: a vnode, a string,
  a number, a boolean, \<^verbatim>\<open>null\<close>, \<^verbatim>\<open>undefined\<close>, or an array of children.
\<close>

datatype vnode_child =
    ChildUndefined | ChildNull | ChildBool bool | ChildStr string | ChildNum int | ChildNaN
  | ChildArr "jsval list" | ChildVNode nat

text \<open>\<^verbatim>\<open>normalizeVNode\<close>. \<^verbatim>\<open>child.slice()\<close> is a new array with the same elements.\<close>

definition normalizeVNode :: "env \<Rightarrow> nat \<Rightarrow> vnode_child \<Rightarrow> state \<Rightarrow> (nat \<times> state) outcome" where
  "normalizeVNode e fuel child s =
     (case child of
        ChildUndefined \<Rightarrow> createVNode e fuel Comment None Null 0 None False s
      | ChildNull \<Rightarrow> createVNode e fuel Comment None Null 0 None False s
      | ChildBool b \<Rightarrow> createVNode e fuel Comment None Null 0 None False s
      | ChildArr xs \<Rightarrow>
          createVNode e fuel Fragment None (Arr (fresh s) xs) 0 None False (s\<lparr>fresh := Suc (fresh s)\<rparr>)
      | ChildVNode a \<Rightarrow> cloneIfMounted e fuel a s
      | ChildStr x \<Rightarrow> createVNode e fuel Text None (Str x) 0 None False s
      | ChildNum n \<Rightarrow> createVNode e fuel Text None (Str (String (Num n))) 0 None False s
      | ChildNaN \<Rightarrow> createVNode e fuel Text None (Str (String NaN)) 0 None False s)"

section \<open>Properties of the store\<close>

lemma nth_opt_append [simp]:
  "nth_opt (xs @ [x]) i = (if i = length xs then Some x else nth_opt xs i)"
  by (auto simp: nth_opt_def nth_append)

lemma nth_opt_update [simp]:
  "nth_opt (xs[i := y]) j = (if j = i then map_option (\<lambda>_. y) (nth_opt xs i) else nth_opt xs j)"
  by (auto simp: nth_opt_def)

lemma nth_opt_Nil [simp]: "nth_opt [] i = None"
  by (simp add: nth_opt_def)

lemma nth_opt_Cons [simp]:
  "nth_opt (x # xs) 0 = Some x" "nth_opt (x # xs) (Suc i) = nth_opt xs i"
  by (simp_all add: nth_opt_def)

lemma nth_opt_Some_less: "nth_opt xs i = Some x \<Longrightarrow> i < length xs"
  by (simp add: nth_opt_def split: if_splits)

lemma nth_opt_Some_nth: "nth_opt xs i = Some x \<Longrightarrow> xs ! i = x"
  by (simp add: nth_opt_def split: if_splits)

lemma nth_opt_length [simp]: "nth_opt xs (length xs) = None"
  by (simp add: nth_opt_def)

lemma update_vnode_fields [simp]:
  "vnodes (update_vnode a f s) = (vnodes s)[a := f (vnodes s ! a)]"
  "arrays (update_vnode a f s) = arrays s"
  "blockStack (update_vnode a f s) = blockStack s"
  "currentBlock (update_vnode a f s) = currentBlock s"
  "isBlockTreeEnabled (update_vnode a f s) = isBlockTreeEnabled s"
  "warnings (update_vnode a f s) = warnings s"
  "fresh (update_vnode a f s) = fresh s"
  "currentRenderingInstance (update_vnode a f s) = currentRenderingInstance s"
  "currentScopeId (update_vnode a f s) = currentScopeId s"
  by (simp_all add: update_vnode_def)

lemma vnode_at_update_vnode:
  "vnode_at (update_vnode a f s) b = (if b = a then map_option f (vnode_at s a) else vnode_at s b)"
  by (auto simp: nth_opt_def)

lemma array_push_fields [simp]:
  "vnodes (array_push r a s) = vnodes s"
  "arrays (array_push r a s) = (arrays s)[r := arrays s ! r @ [a]]"
  "blockStack (array_push r a s) = blockStack s"
  "currentBlock (array_push r a s) = currentBlock s"
  "isBlockTreeEnabled (array_push r a s) = isBlockTreeEnabled s"
  "warnings (array_push r a s) = warnings s"
  "fresh (array_push r a s) = fresh s"
  by (simp_all add: array_push_def)

lemma array_at_array_push:
  "array_at (array_push r a s) q =
     (if q = r then map_option (\<lambda>xs. xs @ [a]) (array_at s r) else array_at s q)"
  by (auto simp: nth_opt_def)

lemma warn_fields [simp]:
  "vnodes (warn m s) = vnodes s"
  "arrays (warn m s) = arrays s"
  "blockStack (warn m s) = blockStack s"
  "currentBlock (warn m s) = currentBlock s"
  "isBlockTreeEnabled (warn m s) = isBlockTreeEnabled s"
  "warnings (warn m s) = warnings s @ [m]"
  "fresh (warn m s) = fresh s"
  by (simp_all add: warn_def)

lemma set_children_fields [simp]:
  "vnodes (set_children a c t s) =
     (vnodes s)[a := (vnodes s ! a)\<lparr>children := c, shapeFlag := js_or (shapeFlag (vnodes s ! a)) t\<rparr>]"
  "arrays (set_children a c t s) = arrays s"
  "blockStack (set_children a c t s) = blockStack s"
  "currentBlock (set_children a c t s) = currentBlock s"
  "isBlockTreeEnabled (set_children a c t s) = isBlockTreeEnabled s"
  "warnings (set_children a c t s) = warnings s"
  "fresh (set_children a c t s) = fresh s"
  by (simp_all add: set_children_def)

lemma bind_eq_Returns:
  "bind m f = Returns y \<longleftrightarrow> (\<exists>x. m = Returns x \<and> f x = Returns y)"
  by (cases m) simp_all

lemma elements_ArrAt: "array_at s r = Some xs \<Longrightarrow> elements s (ArrAt r) = xs"
  by simp

section \<open>Properties of the flags\<close>

lemma js_and_js_or_children:
  "t \<in> {0, TEXT_CHILDREN, ARRAY_CHILDREN, SLOTS_CHILDREN} \<Longrightarrow>
     js_and (js_or x t) COMPONENT = js_and x COMPONENT"
  by (auto simp: js_and_def js_or_def ShapeFlags_defs COMPONENT_def bit.conj_disj_distrib2)

section \<open>Properties of cloning\<close>

lemma extends_refl [simp]: "extends s s"
  by (simp add: extends_def)

lemma extends_trans: "extends s s' \<Longrightarrow> extends s' s'' \<Longrightarrow> extends s s''"
  by (auto simp: extends_def)

lemma extends_fresh [simp]: "extends s (s'\<lparr>fresh := n\<rparr>) = extends s s'"
  by (simp add: extends_def)

lemma extends_alloc: "extends s s' \<Longrightarrow> extends s (s'\<lparr>vnodes := vnodes s' @ [v]\<rparr>)"
  by (auto simp: extends_def dest: nth_opt_Some_less)

lemma extends_update_new:
  "extends s s' \<Longrightarrow> length (vnodes s) \<le> c \<Longrightarrow> extends s (update_vnode c f s')"
  by (auto simp: extends_def dest: nth_opt_Some_less)

lemma clone_props_frame: "clone_props v x s = (mp, s') \<Longrightarrow> extends s s'"
  by (auto simp: clone_props_def extends_def split: option.splits prod.splits)

lemma normalizeRef_extends: "normalizeRef e p s = (r, s') \<Longrightarrow> extends s s'"
  by (auto simp: normalizeRef_def Let_def extends_def split: if_splits)

lemma clone_ref_frame: "clone_ref e v x m s = (rf, s') \<Longrightarrow> extends s s'"
  by (auto simp: clone_ref_def split: option.splits prod.splits if_splits dest: normalizeRef_extends)

lemma cloneVNode_extends:
  "cloneVNode e n a x m s = Returns (c, s') \<Longrightarrow>
     extends s s' \<and> length (vnodes s) \<le> c \<and> c < length (vnodes s')"
  "deepCloneVNode e n y s = Returns (c, s') \<Longrightarrow>
     extends s s' \<and> length (vnodes s) \<le> c \<and> c < length (vnodes s')"
  "deepCloneVNodes e n ys s = Returns (cs, s') \<Longrightarrow> extends s s'"
proof (induction e n a x m s and e n y s and e n ys s arbitrary: c s' and c s' and cs s'
       rule: cloneVNode_deepCloneVNode_deepCloneVNodes.induct)
  case (1 e a extraProps mergeRef s)
  then show ?case by simp
next
  case (2 e n a extraProps mergeRef s)
  from "2.prems" obtain v where v: "vnode_at s a = Some v"
    by (auto split: option.splits)
  obtain mp s1 where cp: "clone_props v extraProps s = (mp, s1)"
    by (cases "clone_props v extraProps s")
  obtain rf s2 where cr: "clone_ref e v extraProps mergeRef s1 = (rf, s2)"
    by (cases "clone_ref e v extraProps mergeRef s1")
  have e2: "extends s s2"
    using clone_props_frame [OF cp] clone_ref_frame [OF cr] by (rule extends_trans)
  from "2.prems" v cp cr obtain ch s3 ssc s4 ssf s5 where
    kids: "(if DEV e \<and> patchFlag v = HOISTED \<and> isArray (children v)
            then bind (deepCloneVNodes e n (spread (children v)) s2)
                   (\<lambda>(cs, s'). Returns (Arr (fresh s') cs, s'\<lparr>fresh := Suc (fresh s')\<rparr>))
            else Returns (children v, s2)) = Returns (ch, s3)"
    and content: "(case ssContent v of
                     None \<Rightarrow> Returns (None, s3)
                   | Some c \<Rightarrow> bind (cloneVNode e n c None False s3)
                                 (\<lambda>(c', s'). Returns (Some c', s'))) = Returns (ssc, s4)"
    and fallback: "(case ssFallback v of
                      None \<Rightarrow> Returns (None, s4)
                    | Some c \<Rightarrow> bind (cloneVNode e n c None False s4)
                                  (\<lambda>(c', s'). Returns (Some c', s'))) = Returns (ssf, s5)"
    and fin: "(c, s') = alloc_vnode
                (cloned_vnode v mp rf ch (clone_patchFlag v extraProps) ssc ssf) s5"
    by (auto simp: bind_eq_Returns)
  have e3: "extends s2 s3"
  proof (cases "DEV e \<and> patchFlag v = HOISTED \<and> isArray (children v)")
    case True
    with kids obtain cs t where d: "deepCloneVNodes e n (spread (children v)) s2 = Returns (cs, t)"
      and s3: "s3 = t\<lparr>fresh := Suc (fresh t)\<rparr>"
      by (auto simp: bind_eq_Returns)
    from "2.IH"(1) [OF v cp [symmetric] cr [symmetric] True d]
    show ?thesis by (simp add: s3)
  next
    case False
    with kids show ?thesis by auto
  qed
  have e4: "extends s3 s4"
  proof (cases "ssContent v")
    case None
    with content show ?thesis by simp
  next
    case (Some k)
    with content obtain k' where d: "cloneVNode e n k None False s3 = Returns (k', s4)"
      by (auto simp: bind_eq_Returns)
    from "2.IH"(2) [OF v cp [symmetric] cr [symmetric] kids refl Some d]
    show ?thesis by simp
  qed
  have e5: "extends s4 s5"
  proof (cases "ssFallback v")
    case None
    with fallback show ?thesis by simp
  next
    case (Some k)
    with fallback obtain k' where d: "cloneVNode e n k None False s4 = Returns (k', s5)"
      by (auto simp: bind_eq_Returns)
    from "2.IH"(3) [OF v cp [symmetric] cr [symmetric] kids refl content refl Some d]
    show ?thesis by simp
  qed
  have e: "extends s s5"
    using e2 e3 e4 e5 by (blast intro: extends_trans)
  with fin show ?case
    by (auto simp: alloc_vnode_def extends_alloc) (simp add: extends_def)
next
  case (3 e x s)
  then show ?case by simp
next
  case (4 e n x s)
  from "4.prems" obtain a where x: "x = VN a"
    by (cases x) auto
  from "4.prems" x obtain k s1 where cl: "cloneVNode e n a None False s = Returns (k, s1)"
    and rest: "(case vnode_at s1 a of
                 None \<Rightarrow> Throws TypeError
               | Some v \<Rightarrow>
                   if isArray (children v)
                   then bind (deepCloneVNodes e n (spread (children v)) s1)
                          (\<lambda>(cs, s2).
                             Returns (k, update_vnode k (\<lambda>w. w\<lparr>children := Arr (fresh s2) cs\<rparr>)
                                           (s2\<lparr>fresh := Suc (fresh s2)\<rparr>)))
                   else Returns (k, s1)) = Returns (c, s')"
    by (auto simp: bind_eq_Returns)
  from "4.IH"(1) [OF x cl] have e1: "extends s s1" and k: "length (vnodes s) \<le> k" "k < length (vnodes s1)"
    by simp_all
  from rest obtain v where v: "vnode_at s1 a = Some v"
    by (auto split: option.splits)
  show ?case
  proof (cases "isArray (children v)")
    case True
    with rest v obtain cs s2 where d: "deepCloneVNodes e n (spread (children v)) s1 = Returns (cs, s2)"
      and c: "c = k" and s': "s' = update_vnode k (\<lambda>w. w\<lparr>children := Arr (fresh s2) cs\<rparr>)
                                           (s2\<lparr>fresh := Suc (fresh s2)\<rparr>)"
      by (auto simp: bind_eq_Returns)
    from "4.IH"(2) [OF x cl refl v True d] have e2: "extends s1 s2"
      by simp
    have "extends s s2"
      using e1 e2 by (rule extends_trans)
    then have "extends s s'"
      unfolding s' using k(1) by (intro extends_update_new) simp_all
    moreover have "k < length (vnodes s')"
      using k(2) e2 by (simp add: s' extends_def)
    ultimately show ?thesis
      using c k by simp
  next
    case False
    with rest v e1 k show ?thesis by simp
  qed
next
  case (5 e n s)
  then show ?case by simp
next
  case (6 e n x xs s)
  from "6.prems" obtain k s1 ks s2 where d1: "deepCloneVNode e n x s = Returns (k, s1)"
    and d2: "deepCloneVNodes e n xs s1 = Returns (ks, s2)" and s': "s' = s2"
    by (auto simp: bind_eq_Returns)
  from "6.IH"(1) [OF d1] "6.IH"(2) [OF d1 refl d2] s'
  show ?case
    by (auto intro: extends_trans)
qed

lemma clonable_mono:
  "clonable e n vs a \<Longrightarrow> (\<And>b v. nth_opt vs b = Some v \<Longrightarrow> nth_opt vs' b = Some v) \<Longrightarrow> clonable e n vs' a"
  "deep_clonable e n vs x \<Longrightarrow> (\<And>b v. nth_opt vs b = Some v \<Longrightarrow> nth_opt vs' b = Some v) \<Longrightarrow> deep_clonable e n vs' x"
proof (induction e n vs a and e n vs x rule: clonable_deep_clonable.induct)
  case (1 e vs a)
  then show ?case by simp
next
  case (2 e n vs a)
  from "2.prems"(1) obtain v where v: "nth_opt vs a = Some v"
    by (auto split: option.splits)
  then have v': "nth_opt vs' a = Some v"
    by (rule "2.prems"(2))
  have kids: "list_all (deep_clonable e n vs') (spread (children v))"
    if c: "DEV e \<and> patchFlag v = HOISTED \<and> isArray (children v)"
  proof -
    from "2.prems"(1) v c have "list_all (deep_clonable e n vs) (spread (children v))"
      by simp
    then show ?thesis
      using "2.IH"(1) [OF v c _ _ "2.prems"(2)] by (auto simp: list_all_iff)
  qed
  have content: "clonable e n vs' c" if c: "ssContent v = Some c" for c
    using "2.prems"(1) v c "2.IH"(2) [OF v c _ "2.prems"(2)] by simp
  have fallback: "clonable e n vs' c" if c: "ssFallback v = Some c" for c
    using "2.prems"(1) v c "2.IH"(3) [OF v c _ "2.prems"(2)] by simp
  from v' kids content fallback show ?case
    by (auto split: option.splits)
next
  case (3 e vs x)
  then show ?case by simp
next
  case (4 e n vs x)
  from "4.prems"(1) obtain a where x: "x = VN a"
    by (cases x) auto
  from "4.prems"(1) x obtain v where v: "nth_opt vs a = Some v"
    by (auto split: option.splits)
  then have v': "nth_opt vs' a = Some v"
    by (rule "4.prems"(2))
  have c: "clonable e n vs' a"
    using "4.prems"(1) x "4.IH"(1) [OF x _ "4.prems"(2)] by simp
  have kids: "list_all (deep_clonable e n vs') (spread (children v))" if arr: "isArray (children v)"
  proof -
    from "4.prems"(1) x v arr have "list_all (deep_clonable e n vs) (spread (children v))"
      by simp
    then show ?thesis
      using "4.IH"(2) [OF x v arr _ _ "4.prems"(2)] by (auto simp: list_all_iff)
  qed
  from x v' c kids show ?case
    by simp
qed

lemma extends_clonable:
  "extends s s' \<Longrightarrow> clonable e n (vnodes s) a \<Longrightarrow> clonable e n (vnodes s') a"
  "extends s s' \<Longrightarrow> list_all (deep_clonable e n (vnodes s)) xs \<Longrightarrow>
     list_all (deep_clonable e n (vnodes s')) xs"
  by (auto simp: extends_def list_all_iff intro: clonable_mono)

text \<open>Enough fuel: on a store in which the vnode is clonable within \<open>n\<close> calls,
  \<^verbatim>\<open>cloneVNode\<close> with fuel \<open>n\<close> returns.\<close>

lemma cloneVNode_returns:
  "clonable e n (vnodes s) a \<Longrightarrow> \<exists>c s'. cloneVNode e n a x m s = Returns (c, s')"
  "deep_clonable e n (vnodes s) y \<Longrightarrow> \<exists>c s'. deepCloneVNode e n y s = Returns (c, s')"
  "list_all (deep_clonable e n (vnodes s)) ys \<Longrightarrow> \<exists>cs s'. deepCloneVNodes e n ys s = Returns (cs, s')"
proof (induction e n a x m s and e n y s and e n ys s
       rule: cloneVNode_deepCloneVNode_deepCloneVNodes.induct)
  case (1 e a extraProps mergeRef s)
  then show ?case by simp
next
  case (2 e n a extraProps mergeRef s)
  from "2.prems" obtain v where v: "vnode_at s a = Some v"
    by (auto split: option.splits)
  obtain mp s1 where cp: "clone_props v extraProps s = (mp, s1)"
    by (cases "clone_props v extraProps s")
  obtain rf s2 where cr: "clone_ref e v extraProps mergeRef s1 = (rf, s2)"
    by (cases "clone_ref e v extraProps mergeRef s1")
  have e2: "extends s s2"
    using clone_props_frame [OF cp] clone_ref_frame [OF cr] by (rule extends_trans)
  let ?kids = "if DEV e \<and> patchFlag v = HOISTED \<and> isArray (children v)
            then bind (deepCloneVNodes e n (spread (children v)) s2)
                   (\<lambda>(cs, s'). Returns (Arr (fresh s') cs, s'\<lparr>fresh := Suc (fresh s')\<rparr>))
            else Returns (children v, s2)"
  have "\<exists>ch s3. ?kids = Returns (ch, s3) \<and> extends s2 s3"
  proof (cases "DEV e \<and> patchFlag v = HOISTED \<and> isArray (children v)")
    case True
    with "2.prems" v have "list_all (deep_clonable e n (vnodes s)) (spread (children v))"
      by simp
    then have "list_all (deep_clonable e n (vnodes s2)) (spread (children v))"
      using e2 by (rule extends_clonable(2) [rotated])
    from "2.IH"(1) [OF v cp [symmetric] cr [symmetric] True this]
    obtain cs t where d: "deepCloneVNodes e n (spread (children v)) s2 = Returns (cs, t)"
      by blast
    from cloneVNode_extends(3) [OF d] have "extends s2 (t\<lparr>fresh := Suc (fresh t)\<rparr>)"
      by simp
    with True d show ?thesis by simp
  next
    case False
    then show ?thesis by auto
  qed
  then obtain ch s3 where kids: "?kids = Returns (ch, s3)" and e3: "extends s2 s3"
    by blast
  have e03: "extends s s3"
    using e2 e3 by (rule extends_trans)
  let ?content = "\<lambda>s3. case ssContent v of
                     None \<Rightarrow> Returns (None, s3)
                   | Some c \<Rightarrow> bind (cloneVNode e n c None False s3)
                                 (\<lambda>(c', s'). Returns (Some c', s'))"
  have "\<exists>ssc s4. ?content s3 = Returns (ssc, s4) \<and> extends s3 s4"
  proof (cases "ssContent v")
    case None
    then show ?thesis by simp
  next
    case (Some k)
    with "2.prems" v have "clonable e n (vnodes s) k"
      by simp
    then have "clonable e n (vnodes s3) k"
      using e03 by (rule extends_clonable(1) [rotated])
    from "2.IH"(2) [OF v cp [symmetric] cr [symmetric] kids refl Some this]
    obtain k' s4 where d: "cloneVNode e n k None False s3 = Returns (k', s4)"
      by blast
    from cloneVNode_extends(1) [OF d] Some d show ?thesis
      by simp
  qed
  then obtain ssc s4 where content: "?content s3 = Returns (ssc, s4)" and e4: "extends s3 s4"
    by blast
  have e04: "extends s s4"
    using e03 e4 by (rule extends_trans)
  let ?fallback = "\<lambda>s4. case ssFallback v of
                      None \<Rightarrow> Returns (None, s4)
                    | Some c \<Rightarrow> bind (cloneVNode e n c None False s4)
                                  (\<lambda>(c', s'). Returns (Some c', s'))"
  have "\<exists>ssf s5. ?fallback s4 = Returns (ssf, s5)"
  proof (cases "ssFallback v")
    case None
    then show ?thesis by simp
  next
    case (Some k)
    with "2.prems" v have "clonable e n (vnodes s) k"
      by simp
    then have "clonable e n (vnodes s4) k"
      using e04 by (rule extends_clonable(1) [rotated])
    from "2.IH"(3) [OF v cp [symmetric] cr [symmetric] kids refl content refl Some this]
    obtain k' s5 where d: "cloneVNode e n k None False s4 = Returns (k', s5)"
      by blast
    with Some show ?thesis
      by simp
  qed
  then obtain ssf s5 where fallback: "?fallback s4 = Returns (ssf, s5)"
    by blast
  from v cp cr kids content fallback show ?case
    by (simp add: alloc_vnode_def)
next
  case (3 e x s)
  then show ?case by simp
next
  case (4 e n x s)
  from "4.prems" obtain a where x: "x = VN a"
    by (cases x) auto
  from "4.prems" x obtain v where v: "vnode_at s a = Some v"
    by (auto split: option.splits)
  from "4.prems" x have "clonable e n (vnodes s) a"
    by simp
  from "4.IH"(1) [OF x this] obtain k s1 where cl: "cloneVNode e n a None False s = Returns (k, s1)"
    by blast
  from cloneVNode_extends(1) [OF cl] have e1: "extends s s1"
    by simp
  with v have v1: "vnode_at s1 a = Some v"
    by (simp add: extends_def)
  show ?case
  proof (cases "isArray (children v)")
    case True
    with "4.prems" x v have "list_all (deep_clonable e n (vnodes s)) (spread (children v))"
      by simp
    then have "list_all (deep_clonable e n (vnodes s1)) (spread (children v))"
      using e1 by (rule extends_clonable(2) [rotated])
    from "4.IH"(2) [OF x cl refl v1 True this]
    obtain cs s2 where "deepCloneVNodes e n (spread (children v)) s1 = Returns (cs, s2)"
      by blast
    with x cl v1 True show ?thesis
      by simp
  next
    case False
    with x cl v1 show ?thesis
      by simp
  qed
next
  case (5 e n s)
  then show ?case by simp
next
  case (6 e n x xs s)
  from "6.prems" have hd: "deep_clonable e n (vnodes s) x"
    and tl: "list_all (deep_clonable e n (vnodes s)) xs"
    by simp_all
  from "6.IH"(1) [OF hd] obtain k s1 where d1: "deepCloneVNode e n x s = Returns (k, s1)"
    by blast
  from cloneVNode_extends(2) [OF d1] have "extends s s1"
    by simp
  with tl have "list_all (deep_clonable e n (vnodes s1)) xs"
    by (rule extends_clonable(2) [rotated])
  from "6.IH"(2) [OF d1 refl this] obtain ks s2 where "deepCloneVNodes e n xs s1 = Returns (ks, s2)"
    by blast
  with d1 show ?case
    by simp
qed

section \<open>Properties of vnode construction\<close>


lemma normalizeRef_frame: "normalizeRef e p s = (r, s') \<Longrightarrow> s' = s\<lparr>fresh := fresh s'\<rparr>"
  by (auto simp: normalizeRef_def Let_def split: if_splits)

lemma strict_eq_self: "strict_eq k k \<longleftrightarrow> k \<noteq> NaN"
  by (simp add: strict_eq_def)

text \<open>The end of \<^verbatim>\<open>createBaseVNode\<close> returns whenever the vnode is in the store, and
  changes nothing but the warnings and the current list.\<close>

lemma validate_and_track_result:
  assumes "validate_and_track e a isBlockNode sf s = Returns (a', s')"
  shows "a' = a \<and> (\<exists>v. vnode_at s a = Some v \<and> vnodes s' = vnodes s
           \<and> blockStack s' = blockStack s \<and> currentBlock s' = currentBlock s
           \<and> isBlockTreeEnabled s' = isBlockTreeEnabled s
           \<and> warnings s' = warnings s @
                 (if DEV e \<and> key v = NaN
                  then [''VNode created with invalid key (NaN). VNode type:''] else [])
           \<and> arrays s' = (if tracked s isBlockNode sf v
                           then (arrays s)[the (currentBlock s) := arrays s ! the (currentBlock s) @ [a]]
                           else arrays s))"
proof -
  from assms obtain v where v: "vnode_at s a = Some v"
    by (auto simp: validate_and_track_def split: option.splits)
  define s1 where "s1 = (if DEV e \<and> \<not> strict_eq (key v) (key v)
                     then warn ''VNode created with invalid key (NaN). VNode type:'' s
                     else s)"
  have "validate_and_track e a isBlockNode sf s =
          Returns (a, if tracked s1 isBlockNode sf v then array_push (the (currentBlock s1)) a s1 else s1)"
    unfolding validate_and_track_def s1_def Let_def v by (simp only: option.case)
  with assms have a': "a' = a"
    and s': "s' = (if tracked s1 isBlockNode sf v then array_push (the (currentBlock s1)) a s1 else s1)"
    by simp_all
  have f: "vnodes s1 = vnodes s" "blockStack s1 = blockStack s" "currentBlock s1 = currentBlock s"
    "isBlockTreeEnabled s1 = isBlockTreeEnabled s" "arrays s1 = arrays s"
    by (simp_all add: s1_def)
  have w: "warnings s1 = warnings s @
                 (if DEV e \<and> key v = NaN
                  then [''VNode created with invalid key (NaN). VNode type:''] else [])"
    by (simp add: s1_def strict_eq_self)
  have t: "tracked s1 isBlockNode sf v = tracked s isBlockNode sf v"
    by (simp add: tracked_def f)
  show ?thesis
  proof (cases "tracked s isBlockNode sf v")
    case True
    with a' s' v f w t show ?thesis by simp
  next
    case False
    with a' s' v f w t show ?thesis by simp
  qed
qed

lemma validate_and_track_returns:
  "vnode_at s a = Some v \<Longrightarrow> \<exists>s'. validate_and_track e a isBlockNode sf s = Returns (a, s')"
  by (simp add: validate_and_track_def Let_def)

text \<open>\<^verbatim>\<open>createBaseVNode\<close> is its first part followed by its end.\<close>

lemma createBaseVNode_split:
  "createBaseVNode e fuel ty ps ch pf dps shape isBlockNode needFull s = Returns (a, s') \<longleftrightarrow>
     (\<exists>s3. new_vnode e fuel ty ps ch pf dps (default_shapeFlag ty shape) needFull s = Returns (a, s3)
          \<and> validate_and_track e a isBlockNode (default_shapeFlag ty shape) s3 = Returns (a, s'))"
proof
  assume "createBaseVNode e fuel ty ps ch pf dps shape isBlockNode needFull s = Returns (a, s')"
  then obtain b s3 where n: "new_vnode e fuel ty ps ch pf dps (default_shapeFlag ty shape) needFull s = Returns (b, s3)"
    and f: "validate_and_track e b isBlockNode (default_shapeFlag ty shape) s3 = Returns (a, s')"
    by (auto simp: createBaseVNode_def createBaseVNode_with_def new_vnode_def Let_def bind_eq_Returns)
  from validate_and_track_result [OF f] have "a = b"
    by simp
  with n f show "\<exists>s3. new_vnode e fuel ty ps ch pf dps (default_shapeFlag ty shape) needFull s = Returns (a, s3)
          \<and> validate_and_track e a isBlockNode (default_shapeFlag ty shape) s3 = Returns (a, s')"
    by blast
next
  assume "\<exists>s3. new_vnode e fuel ty ps ch pf dps (default_shapeFlag ty shape) needFull s = Returns (a, s3)
          \<and> validate_and_track e a isBlockNode (default_shapeFlag ty shape) s3 = Returns (a, s')"
  then show "createBaseVNode e fuel ty ps ch pf dps shape isBlockNode needFull s = Returns (a, s')"
    by (auto simp: createBaseVNode_def createBaseVNode_with_def new_vnode_def Let_def)
qed

text \<open>The first part of a call from compiled code (no full normalisation of the children)
  always returns, and only allocates the vnode.\<close>

lemma new_vnode_compiled:
  "\<exists>s3 v. new_vnode e fuel ty ps ch pf dps sf False s = Returns (length (vnodes s), s3)
     \<and> vnodes s3 = vnodes s @ [v] \<and> patchFlag v = pf \<and> type v = ty \<and> props v = ps
     \<and> key v = (case ps of Some p \<Rightarrow> normalizeKey p | None \<Rightarrow> Null)
     \<and> dynamicChildren v = None \<and> el v = None \<and> memo v = None
     \<and> js_and (shapeFlag v) COMPONENT = js_and sf COMPONENT
     \<and> arrays s3 = arrays s \<and> blockStack s3 = blockStack s \<and> currentBlock s3 = currentBlock s
     \<and> isBlockTreeEnabled s3 = isBlockTreeEnabled s \<and> warnings s3 = warnings s"
proof -
  obtain rf s1 where rs: "(case ps of Some p \<Rightarrow> normalizeRef e p s | None \<Rightarrow> (Null, s)) = (rf, s1)"
    by (cases "case ps of Some p \<Rightarrow> normalizeRef e p s | None \<Rightarrow> (Null, s)") auto
  then have "\<exists>n. s1 = s\<lparr>fresh := n\<rparr>"
  proof (cases ps)
    case None
    with rs have "s1 = s\<lparr>fresh := fresh s\<rparr>" by simp
    then show ?thesis ..
  next
    case (Some p)
    with rs have "s1 = s\<lparr>fresh := fresh s1\<rparr>"
      using normalizeRef_frame [of e p s rf s1] by simp
    then show ?thesis ..
  qed
  then obtain n where s1: "s1 = s\<lparr>fresh := n\<rparr>" ..
  define b where "b = base_vnode s ty ps rf ch pf dps sf"
  define t where "t = (if truthy ch then if isString ch then TEXT_CHILDREN else ARRAY_CHILDREN else 0)"
  define v where "v = (if truthy ch then b\<lparr>shapeFlag := js_or (shapeFlag b) t\<rparr> else b)"
  define s3 where "s3 = s1\<lparr>vnodes := vnodes s @ [v]\<rparr>"
  have "new_vnode e fuel ty ps ch pf dps sf False s = Returns (length (vnodes s), s3)"
    by (auto simp: new_vnode_def new_vnode_with_def rs alloc_vnode_def normalize_new_children_def
          s3_def s1 v_def t_def b_def update_vnode_def)
  moreover have "vnodes s3 = vnodes s @ [v]" "arrays s3 = arrays s" "blockStack s3 = blockStack s"
    "currentBlock s3 = currentBlock s" "isBlockTreeEnabled s3 = isBlockTreeEnabled s"
    "warnings s3 = warnings s"
    by (simp_all add: s3_def s1)
  moreover have "t \<in> {0, TEXT_CHILDREN, ARRAY_CHILDREN, SLOTS_CHILDREN}"
    by (simp add: t_def)
  then have "js_and (shapeFlag v) COMPONENT = js_and sf COMPONENT"
    by (simp add: v_def b_def base_vnode_def js_and_js_or_children)
  moreover have "patchFlag v = pf" "type v = ty" "props v = ps"
    "key v = (case ps of Some p \<Rightarrow> normalizeKey p | None \<Rightarrow> Null)"
    "dynamicChildren v = None" "el v = None" "memo v = None"
    by (simp_all add: v_def b_def base_vnode_def)
  ultimately show ?thesis
    by blast
qed

text \<open>A call from compiled code always returns.\<close>

lemma createBaseVNode_compiled_step:
  "\<exists>s' v. createBaseVNode e fuel ty ps ch pf dps shape isBlockNode False s = Returns (length (vnodes s), s')
     \<and> vnodes s' = vnodes s @ [v] \<and> patchFlag v = pf \<and> dynamicChildren v = None
     \<and> type v = ty \<and> props v = ps \<and> key v = (case ps of Some p \<Rightarrow> normalizeKey p | None \<Rightarrow> Null)
     \<and> js_and (shapeFlag v) COMPONENT = js_and (default_shapeFlag ty shape) COMPONENT
     \<and> blockStack s' = blockStack s \<and> currentBlock s' = currentBlock s
     \<and> isBlockTreeEnabled s' = isBlockTreeEnabled s
     \<and> warnings s' = warnings s @
           (if DEV e \<and> key v = NaN then [''VNode created with invalid key (NaN). VNode type:''] else [])
     \<and> arrays s' =
           (if isBlockTreeEnabled s > 0 \<and> currentBlock s \<noteq> None \<and> \<not> isBlockNode
                 \<and> (pf > 0 \<or> js_and (default_shapeFlag ty shape) COMPONENT \<noteq> 0)
                 \<and> pf \<noteq> HYDRATE_EVENTS
            then (arrays s)[the (currentBlock s) := arrays s ! the (currentBlock s) @ [length (vnodes s)]]
            else arrays s)"
proof -
  define sf where "sf = default_shapeFlag ty shape"
  define a where "a = length (vnodes s)"
  from new_vnode_compiled [of e fuel ty ps ch pf dps sf s]
  obtain s3 v where n: "new_vnode e fuel ty ps ch pf dps sf False s = Returns (a, s3)"
    and v: "vnodes s3 = vnodes s @ [v]" "patchFlag v = pf" "type v = ty" "props v = ps"
      "key v = (case ps of Some p \<Rightarrow> normalizeKey p | None \<Rightarrow> Null)"
      "dynamicChildren v = None" "js_and (shapeFlag v) COMPONENT = js_and sf COMPONENT"
    and f: "arrays s3 = arrays s" "blockStack s3 = blockStack s" "currentBlock s3 = currentBlock s"
      "isBlockTreeEnabled s3 = isBlockTreeEnabled s" "warnings s3 = warnings s"
    unfolding a_def by blast
  have at: "vnode_at s3 a = Some v"
    by (simp add: v a_def)
  from validate_and_track_returns [OF at] obtain s' where
    fin: "validate_and_track e a isBlockNode sf s3 = Returns (a, s')"
    by blast
  from validate_and_track_result [OF fin] at
  have r: "vnodes s' = vnodes s3" "blockStack s' = blockStack s3" "currentBlock s' = currentBlock s3"
      "isBlockTreeEnabled s' = isBlockTreeEnabled s3"
      "warnings s' = warnings s3 @
                 (if DEV e \<and> key v = NaN
                  then [''VNode created with invalid key (NaN). VNode type:''] else [])"
      "arrays s' = (if tracked s3 isBlockNode sf v
                    then (arrays s3)[the (currentBlock s3) := arrays s3 ! the (currentBlock s3) @ [a]]
                    else arrays s3)"
    by auto
  have call: "createBaseVNode e fuel ty ps ch pf dps shape isBlockNode False s = Returns (a, s')"
    unfolding createBaseVNode_split using n fin by (auto simp: sf_def)
  have arr: "arrays s' =
           (if isBlockTreeEnabled s > 0 \<and> currentBlock s \<noteq> None \<and> \<not> isBlockNode
                 \<and> (pf > 0 \<or> js_and sf COMPONENT \<noteq> 0)
                 \<and> pf \<noteq> HYDRATE_EVENTS
            then (arrays s)[the (currentBlock s) := arrays s ! the (currentBlock s) @ [a]]
            else arrays s)"
    unfolding r(6) tracked_def f v(2) by auto
  from call v r f arr show ?thesis
    unfolding a_def sf_def by simp
qed

lemma default_shapeFlag_None_not_component: "js_and (default_shapeFlag ty None) COMPONENT = 0"
  by (simp add: default_shapeFlag_def js_and_def js_or_def COMPONENT_def ShapeFlags_defs)

section \<open>What construction leaves alone\<close>

lemma normalize_class_style_frame:
  "normalize_class_style e p s = (p', s') \<Longrightarrow> s' = s\<lparr>fresh := fresh s'\<rparr>"
  by (auto simp: normalize_class_style_def Let_def extend_empty_def split: if_splits prod.splits)

lemma array_replace_fields [simp]:
  "vnodes (array_replace r x y s) = vnodes s"
  "blockStack (array_replace r x y s) = blockStack s"
  "currentBlock (array_replace r x y s) = currentBlock s"
  "isBlockTreeEnabled (array_replace r x y s) = isBlockTreeEnabled s"
  "warnings (array_replace r x y s) = warnings s"
  "length (arrays (array_replace r x y s)) = length (arrays s)"
  by (simp_all add: array_replace_def split: option.splits)






section \<open>Construction of an element through \<^verbatim>\<open>createVNode\<close>\<close>

lemma lookup_assign_other: "k \<noteq> k' \<Longrightarrow> lookup k (assign k' v fs) = lookup k fs"
  by (induction fs) auto

lemma lookup_assign_same: "lookup k (assign k v fs) = v"
  by (induction fs) auto

lemma normalize_class_style_key:
  "normalize_class_style e p s = (p', s') \<Longrightarrow> normalizeKey p' = normalizeKey p"
  by (auto simp: normalize_class_style_def Let_def normalizeKey_def lookup_assign_other
      split: if_splits prod.splits)

text \<open>The children of a vnode that is no Teleport, when they are not an object with slots:
  no slot is called, no text vnode is built, one call suffices.\<close>

lemma normalizeChildren_with_plain:
  assumes v: "vnode_at s a = Some v" and ch: "isObject ch \<longrightarrow> isArray ch"
    and sf: "js_and (shapeFlag v) TELEPORT = 0"
  shows "\<exists>c t m. normalizeChildren_with mk e (Suc n) a ch s = Returns (set_children a c t (s\<lparr>fresh := m\<rparr>))
           \<and> t \<in> {0, TEXT_CHILDREN, ARRAY_CHILDREN, SLOTS_CHILDREN}"
proof -
  consider "is_nullish ch" | "\<not> is_nullish ch" "isArray ch"
    | "\<not> is_nullish ch" "\<not> isArray ch" "\<not> isObject ch" "isFunction ch"
    | "\<not> is_nullish ch" "\<not> isArray ch" "\<not> isObject ch" "\<not> isFunction ch"
    using ch by blast
  then show ?thesis
  proof cases
    case 1
    then have "normalizeChildren_with mk e (Suc n) a ch s = Returns (set_children a Null 0 (s\<lparr>fresh := fresh s\<rparr>))"
      using v by (simp add: normalizeChildren_with.simps)
    then show ?thesis by blast
  next
    case 2
    then have "normalizeChildren_with mk e (Suc n) a ch s
                 = Returns (set_children a ch ARRAY_CHILDREN (s\<lparr>fresh := fresh s\<rparr>))"
      using v by (simp add: normalizeChildren_with.simps)
    then show ?thesis by blast
  next
    case 3
    then have "normalizeChildren_with mk e (Suc n) a ch s
                 = Returns (set_children a (Obj (fresh s) [(''default'', ch), (''_ctx'', instance_ref s)])
                              SLOTS_CHILDREN (s\<lparr>fresh := Suc (fresh s)\<rparr>))"
      using v by (simp add: normalizeChildren_with.simps)
    then show ?thesis by blast
  next
    case 4
    then have "normalizeChildren_with mk e (Suc n) a ch s
                 = Returns (set_children a (Str (String ch)) TEXT_CHILDREN (s\<lparr>fresh := fresh s\<rparr>))"
      using v sf by (simp add: normalizeChildren_with.simps)
    then show ?thesis by blast
  qed
qed

lemma createBaseVNode_full_plain:
  assumes ch: "isObject ch \<longrightarrow> isArray ch" and sf: "sf = 0 \<or> sf = ELEMENT"
  shows "\<exists>s' v. createBaseVNode e (Suc n) ty ps ch pf dps (Some sf) isBlockNode True s
               = Returns (length (vnodes s), s')
     \<and> vnodes s' = vnodes s @ [v] \<and> patchFlag v = pf \<and> dynamicChildren v = None
     \<and> el v = None \<and> memo v = None
     \<and> type v = ty \<and> props v = ps \<and> key v = (case ps of Some p \<Rightarrow> normalizeKey p | None \<Rightarrow> Null)
     \<and> blockStack s' = blockStack s \<and> currentBlock s' = currentBlock s
     \<and> isBlockTreeEnabled s' = isBlockTreeEnabled s
     \<and> warnings s' = warnings s @
           (if DEV e \<and> key v = NaN then [''VNode created with invalid key (NaN). VNode type:''] else [])
     \<and> arrays s' =
           (if isBlockTreeEnabled s > 0 \<and> currentBlock s \<noteq> None \<and> \<not> isBlockNode
                 \<and> pf > 0 \<and> pf \<noteq> HYDRATE_EVENTS
            then (arrays s)[the (currentBlock s) := arrays s ! the (currentBlock s) @ [length (vnodes s)]]
            else arrays s)"
proof -
  define a where "a = length (vnodes s)"
  obtain rf s1 where rs: "(case ps of Some p \<Rightarrow> normalizeRef e p s | None \<Rightarrow> (Null, s)) = (rf, s1)"
    by (cases "case ps of Some p \<Rightarrow> normalizeRef e p s | None \<Rightarrow> (Null, s)") auto
  then have "\<exists>k. s1 = s\<lparr>fresh := k\<rparr>"
  proof (cases ps)
    case None
    with rs have "s1 = s\<lparr>fresh := fresh s\<rparr>" by simp
    then show ?thesis ..
  next
    case (Some p)
    with rs have "s1 = s\<lparr>fresh := fresh s1\<rparr>"
      using normalizeRef_frame [of e p s rf s1] by simp
    then show ?thesis ..
  qed
  then obtain k where s1: "s1 = s\<lparr>fresh := k\<rparr>" ..
  define b where "b = base_vnode s ty ps rf ch pf dps sf"
  define s2 where "s2 = s1\<lparr>vnodes := vnodes s1 @ [b]\<rparr>"
  have at2: "vnode_at s2 a = Some b"
    by (simp add: s2_def a_def s1)
  have tele: "js_and (shapeFlag b) TELEPORT = 0"
    using sf by (auto simp: b_def base_vnode_def js_and_def ShapeFlags_defs)
  from normalizeChildren_with_plain [OF at2 ch tele, of "\<lambda>t. createTextVNode e t 0" e n]
  obtain c t m where nc: "normalizeChildren_with (\<lambda>t. createTextVNode e t 0) e (Suc n) a ch s2
                            = Returns (set_children a c t (s2\<lparr>fresh := m\<rparr>))"
    and t: "t \<in> {0, TEXT_CHILDREN, ARRAY_CHILDREN, SLOTS_CHILDREN}"
    by blast
  define v where "v = b\<lparr>children := c, shapeFlag := js_or (shapeFlag b) t\<rparr>"
  define s3 where "s3 = set_children a c t (s2\<lparr>fresh := m\<rparr>)"
  have nosusp: "js_and sf SUSPENSE = 0"
    using sf by (auto simp: js_and_def ShapeFlags_defs)
  have n: "new_vnode e (Suc n) ty ps ch pf dps sf True s = Returns (a, s3)"
    using nc nosusp
    by (simp add: new_vnode_def new_vnode_with_def rs alloc_vnode_def normalize_new_children_def
          s3_def s2_def b_def a_def s1)
  have vs3: "vnodes s3 = vnodes s @ [v]"
    by (simp add: s3_def s2_def s1 a_def v_def)
  have f: "arrays s3 = arrays s" "blockStack s3 = blockStack s" "currentBlock s3 = currentBlock s"
    "isBlockTreeEnabled s3 = isBlockTreeEnabled s" "warnings s3 = warnings s"
    by (simp_all add: s3_def s2_def s1)
  have at: "vnode_at s3 a = Some v"
    by (simp add: vs3 a_def)
  have comp: "js_and sf COMPONENT = 0"
    using sf by (auto simp: js_and_def js_or_def COMPONENT_def ShapeFlags_defs)
  have vf: "patchFlag v = pf" "type v = ty" "props v = ps"
    "key v = (case ps of Some p \<Rightarrow> normalizeKey p | None \<Rightarrow> Null)"
    "dynamicChildren v = None" "el v = None" "memo v = None"
    by (simp_all add: v_def b_def base_vnode_def)
  from validate_and_track_returns [OF at] obtain s' where
    fin: "validate_and_track e a isBlockNode sf s3 = Returns (a, s')"
    by blast
  from validate_and_track_result [OF fin] at
  have r: "vnodes s' = vnodes s3" "blockStack s' = blockStack s3" "currentBlock s' = currentBlock s3"
      "isBlockTreeEnabled s' = isBlockTreeEnabled s3"
      "warnings s' = warnings s3 @
                 (if DEV e \<and> key v = NaN
                  then [''VNode created with invalid key (NaN). VNode type:''] else [])"
      "arrays s' = (if tracked s3 isBlockNode sf v
                    then (arrays s3)[the (currentBlock s3) := arrays s3 ! the (currentBlock s3) @ [a]]
                    else arrays s3)"
    by auto
  have call: "createBaseVNode e (Suc n) ty ps ch pf dps (Some sf) isBlockNode True s = Returns (a, s')"
    unfolding createBaseVNode_split using n fin by (auto simp: default_shapeFlag_def)
  have arr: "arrays s' =
           (if isBlockTreeEnabled s > 0 \<and> currentBlock s \<noteq> None \<and> \<not> isBlockNode
                 \<and> pf > 0 \<and> pf \<noteq> HYDRATE_EVENTS
            then (arrays s)[the (currentBlock s) := arrays s ! the (currentBlock s) @ [a]]
            else arrays s)"
    unfolding r(6) tracked_def f vf(1) comp by auto
  from call vs3 vf r f arr show ?thesis
    unfolding a_def by simp
qed

text \<open>\<^verbatim>\<open>createVNode\<close> with a string as the type, and children that are not an object
  with slots: the call returns, and only allocates the vnode and tracks it. The empty
  string is falsy: the vnode is a comment, and a development build warns.\<close>

lemma createVNode_element:
  assumes ch: "isObject ch \<longrightarrow> isArray ch"
  shows "\<exists>s' v. createVNode e (Suc n) (Str tag) ps ch pf dps isBlockNode s
               = Returns (length (vnodes s), s')
     \<and> vnodes s' = vnodes s @ [v] \<and> patchFlag v = pf \<and> dynamicChildren v = None
     \<and> el v = None \<and> memo v = None \<and> type v = (if tag = [] then Comment else Str tag)
     \<and> key v = (case ps of Some p \<Rightarrow> normalizeKey p | None \<Rightarrow> Null)
     \<and> blockStack s' = blockStack s \<and> currentBlock s' = currentBlock s
     \<and> isBlockTreeEnabled s' = isBlockTreeEnabled s
     \<and> warnings s' = warnings s @
           (if DEV e \<and> tag = [] then [''Invalid vnode type when creating vnode: .''] else []) @
           (if DEV e \<and> key v = NaN then [''VNode created with invalid key (NaN). VNode type:''] else [])
     \<and> arrays s' =
           (if isBlockTreeEnabled s > 0 \<and> currentBlock s \<noteq> None \<and> \<not> isBlockNode
                 \<and> pf > 0 \<and> pf \<noteq> HYDRATE_EVENTS
            then (arrays s)[the (currentBlock s) := arrays s ! the (currentBlock s) @ [length (vnodes s)]]
            else arrays s)"
proof -
  define s0 where "s0 = (if DEV e \<and> tag = [] then warn ''Invalid vnode type when creating vnode: .'' s else s)"
  define ty where "ty = (if tag = [] then Comment else Str tag)"
  define sf where "sf = (if tag = [] then 0 else ELEMENT)"
  obtain ps1 s1 where ncs: "(case guardReactiveProps ps of
                           Some p \<Rightarrow> (case normalize_class_style e p s0 of (p', s') \<Rightarrow> (Some p', s'))
                         | None \<Rightarrow> (None, s0)) = (ps1, s1)"
    by (cases "case guardReactiveProps ps of
                           Some p \<Rightarrow> (case normalize_class_style e p s0 of (p', s') \<Rightarrow> (Some p', s'))
                         | None \<Rightarrow> (None, s0)") auto
  have "(\<exists>k. s1 = s0\<lparr>fresh := k\<rparr>)
        \<and> (case ps1 of Some p \<Rightarrow> normalizeKey p | None \<Rightarrow> Null)
            = (case ps of Some p \<Rightarrow> normalizeKey p | None \<Rightarrow> Null)"
  proof (cases ps)
    case None
    with ncs have eq: "s1 = s0\<lparr>fresh := fresh s0\<rparr>" and p1: "ps1 = None"
      by (simp_all add: guardReactiveProps_def)
    from eq have "\<exists>k. s1 = s0\<lparr>fresh := k\<rparr>" ..
    with None p1 show ?thesis by simp
  next
    case (Some p)
    obtain p' t where n: "normalize_class_style e p s0 = (p', t)"
      by (cases "normalize_class_style e p s0")
    with Some ncs have eq: "s1 = t" "ps1 = Some p'"
      by (simp_all add: guardReactiveProps_def)
    with normalize_class_style_frame [OF n] have "s1 = s0\<lparr>fresh := fresh s1\<rparr>" by simp
    then have "\<exists>k. s1 = s0\<lparr>fresh := k\<rparr>" ..
    with normalize_class_style_key [OF n] eq Some show ?thesis by simp
  qed
  then obtain k where s1: "s1 = s0\<lparr>fresh := k\<rparr>"
    and key: "(case ps1 of Some p \<Rightarrow> normalizeKey p | None \<Rightarrow> Null)
            = (case ps of Some p \<Rightarrow> normalizeKey p | None \<Rightarrow> Null)"
    by blast
  have pre: "(if \<not> truthy (Str tag) \<or> strict_eq (Str tag) NULL_DYNAMIC_COMPONENT
            then (Comment,
                  if DEV e \<and> \<not> truthy (Str tag)
                  then warn (''Invalid vnode type when creating vnode: '' @ String (Str tag) @ ''.'') s
                  else s)
            else (Str tag, s)) = (ty, s0)"
    by (simp add: ty_def s0_def NULL_DYNAMIC_COMPONENT_def strict_eq_def)
  have eq: "createVNode e (Suc n) (Str tag) ps ch pf dps isBlockNode s
          = createBaseVNode e (Suc n) ty ps1 ch pf dps (Some sf) isBlockNode True s1"
    unfolding createVNode_def createVNode_with_def pre createBaseVNode_def
    by (simp add: ncs Let_def ty_def sf_def Comment_def isClassComponent_def isSuspense_def
          isTeleport_def js_and_def ShapeFlags_defs)
  have sf: "sf = 0 \<or> sf = ELEMENT"
    by (simp add: sf_def)
  from createBaseVNode_full_plain [OF ch sf, of e n ty ps1 pf dps isBlockNode s1]
  obtain s' v where call: "createBaseVNode e (Suc n) ty ps1 ch pf dps (Some sf) isBlockNode True s1
               = Returns (length (vnodes s1), s')"
    and r: "vnodes s' = vnodes s1 @ [v]" "patchFlag v = pf" "dynamicChildren v = None"
      "el v = None" "memo v = None" "type v = ty"
      "key v = (case ps1 of Some p \<Rightarrow> normalizeKey p | None \<Rightarrow> Null)"
      "blockStack s' = blockStack s1" "currentBlock s' = currentBlock s1"
      "isBlockTreeEnabled s' = isBlockTreeEnabled s1"
      "warnings s' = warnings s1 @
           (if DEV e \<and> key v = NaN then [''VNode created with invalid key (NaN). VNode type:''] else [])"
      "arrays s' =
           (if isBlockTreeEnabled s1 > 0 \<and> currentBlock s1 \<noteq> None \<and> \<not> isBlockNode
                 \<and> pf > 0 \<and> pf \<noteq> HYDRATE_EVENTS
            then (arrays s1)[the (currentBlock s1) := arrays s1 ! the (currentBlock s1) @ [length (vnodes s1)]]
            else arrays s1)"
    by auto
  have f: "vnodes s1 = vnodes s" "arrays s1 = arrays s" "blockStack s1 = blockStack s"
    "currentBlock s1 = currentBlock s" "isBlockTreeEnabled s1 = isBlockTreeEnabled s"
    by (simp_all add: s1 s0_def)
  have w: "warnings s1 = warnings s @
           (if DEV e \<and> tag = [] then [''Invalid vnode type when creating vnode: .''] else [])"
    by (simp add: s1 s0_def)
  have c: "createVNode e (Suc n) (Str tag) ps ch pf dps isBlockNode s = Returns (length (vnodes s), s')"
    using eq call f by simp
  note r' = r [unfolded f key w ty_def append_assoc]
  from c r' show ?thesis
    by blast
qed

section \<open>Properties of blocks\<close>

lemma openBlock_fields [simp]:
  "vnodes (openBlock d s) = vnodes s"
  "isBlockTreeEnabled (openBlock d s) = isBlockTreeEnabled s"
  "warnings (openBlock d s) = warnings s"
  "blockStack (openBlock d s) = blockStack s @ [if d then None else Some (length (arrays s))]"
  "currentBlock (openBlock d s) = (if d then None else Some (length (arrays s)))"
  "arrays (openBlock d s) = (if d then arrays s else arrays s @ [[]])"
  by (simp_all add: openBlock_def Let_def)

lemma closeBlock_fields [simp]:
  "vnodes (closeBlock s) = vnodes s"
  "arrays (closeBlock s) = arrays s"
  "isBlockTreeEnabled (closeBlock s) = isBlockTreeEnabled s"
  "warnings (closeBlock s) = warnings s"
  "blockStack (closeBlock s) = butlast (blockStack s)"
  "currentBlock (closeBlock s) =
     (if butlast (blockStack s) = [] then None else last (butlast (blockStack s)))"
  by (simp_all add: closeBlock_def Let_def)

text \<open>What \<^verbatim>\<open>setupBlock\<close> does to each part of the state.\<close>

lemma setupBlock_result:
  "setupBlock a s = (a', s') \<Longrightarrow>
     a' = a
     \<and> vnodes s' = (vnodes s)[a := (vnodes s ! a)\<lparr>dynamicChildren :=
           (if isBlockTreeEnabled s > 0
            then (case currentBlock s of Some r \<Rightarrow> Some (ArrAt r) | None \<Rightarrow> Some EMPTY_ARR)
            else None)\<rparr>]
     \<and> blockStack s' = butlast (blockStack s)
     \<and> currentBlock s' = (if butlast (blockStack s) = [] then None else last (butlast (blockStack s)))
     \<and> isBlockTreeEnabled s' = isBlockTreeEnabled s
     \<and> warnings s' = warnings s
     \<and> arrays s' =
           (if isBlockTreeEnabled s > 0 \<and> butlast (blockStack s) \<noteq> []
               \<and> last (butlast (blockStack s)) \<noteq> None
            then (arrays s)[the (last (butlast (blockStack s))) :=
                   arrays s ! the (last (butlast (blockStack s))) @ [a]]
            else arrays s)"
  by (auto simp: setupBlock_def Let_def)


lemma wf_blocks_butlast:
  assumes "wf_blocks s" "blockStack s' = butlast (blockStack s)"
    "currentBlock s' = (if butlast (blockStack s) = [] then None else last (butlast (blockStack s)))"
    "length (arrays s') = length (arrays s)"
  shows "wf_blocks s'"
  using assms by (auto simp: wf_blocks_def dest: in_set_butlastD)

lemma setupBlock_fst [simp]: "fst (setupBlock a s) = a"
  by (simp add: setupBlock_def Let_def)

lemma setupBlock_fields [simp]:
  "blockStack (snd (setupBlock a s)) = butlast (blockStack s)"
  "currentBlock (snd (setupBlock a s)) =
     (if butlast (blockStack s) = [] then None else last (butlast (blockStack s)))"
  "isBlockTreeEnabled (snd (setupBlock a s)) = isBlockTreeEnabled s"
  "warnings (snd (setupBlock a s)) = warnings s"
  "length (arrays (snd (setupBlock a s))) = length (arrays s)"
  "vnodes (snd (setupBlock a s)) = (vnodes s)[a := (vnodes s ! a)\<lparr>dynamicChildren :=
           (if isBlockTreeEnabled s > 0
            then (case currentBlock s of Some r \<Rightarrow> Some (ArrAt r) | None \<Rightarrow> Some EMPTY_ARR)
            else None)\<rparr>]"
  by (simp_all add: setupBlock_def Let_def)

lemma setupBlock_arrays:
  "arrays (snd (setupBlock a s)) =
     (case currentBlock (snd (setupBlock a s)) of
        Some r \<Rightarrow> if isBlockTreeEnabled s > 0 then (arrays s)[r := arrays s ! r @ [a]] else arrays s
      | None \<Rightarrow> arrays s)"
  by (simp add: setupBlock_def Let_def split: option.splits)





lemma wf_blocks_frame:
  "wf_blocks s \<Longrightarrow> blockStack s' = blockStack s \<Longrightarrow> currentBlock s' = currentBlock s \<Longrightarrow>
     length (arrays s) \<le> length (arrays s') \<Longrightarrow> wf_blocks s'"
  by (auto simp: wf_blocks_def)

lemma wf_blocks_fresh [simp]: "wf_blocks (s\<lparr>fresh := n\<rparr>) = wf_blocks s"
  by (simp add: wf_blocks_def)




section \<open>Block tracking\<close>

text \<open>
  C1. \<^verbatim>\<open>createBaseVNode\<close> makes the tracking test at its end, in the state that the
  construction of the vnode and the normalisation of its children leave (a slot called
  there may have built and tracked vnodes of its own). If in that state tracking is enabled
  and a list is being collected, the vnode is appended to that list exactly when it is not
  a block node, has a positive patch flag or was created with a component shape flag, and
  its patch flag is not \<^verbatim>\<open>HYDRATE_EVENTS\<close> alone; otherwise the list stays as it is. A
  call from compiled code (no full normalisation) runs no code of the caller, always
  returns, and the state of the test is the state of the call. And: open a block, build
  three children with the patch flags \<^verbatim>\<open>TEXT\<close>, \<open>0\<close> and \<^verbatim>\<open>CLASS\<close>, close the block
  with \<^verbatim>\<open>createElementBlock\<close>; then the \<^verbatim>\<open>dynamicChildren\<close> of the block root are the
  first and the third child, in this order. The same holds when the children are built by
  \<^verbatim>\<open>createVNode\<close> and the block is closed by \<^verbatim>\<open>createBlock\<close>.
\<close>

theorem C1_block_tracking:
  "(createBaseVNode e fuel ty ps ch pf dps shape isBlockNode needFull s = Returns (a, s')
    \<longrightarrow> (\<exists>t v. new_vnode e fuel ty ps ch pf dps (default_shapeFlag ty shape) needFull s = Returns (a, t)
          \<and> vnode_at t a = Some v \<and> vnode_at s' a = Some v
          \<and> (\<forall>r xs. isBlockTreeEnabled t > 0 \<and> currentBlock t = Some r \<and> array_at t r = Some xs
                \<longrightarrow> array_at s' r =
                      Some (if \<not> isBlockNode
                               \<and> (patchFlag v > 0 \<or> js_and (default_shapeFlag ty shape) COMPONENT \<noteq> 0)
                               \<and> patchFlag v \<noteq> HYDRATE_EVENTS
                            then xs @ [a] else xs))))
   \<and> (isBlockTreeEnabled s > 0 \<and> currentBlock s = Some q \<and> array_at s q = Some ys
    \<longrightarrow> (\<exists>s' v. createBaseVNode e fuel ty ps ch pf dps shape isBlockNode False s
                   = Returns (length (vnodes s), s')
          \<and> vnode_at s' (length (vnodes s)) = Some v \<and> patchFlag v = pf
          \<and> array_at s' q =
                Some (if \<not> isBlockNode \<and> (patchFlag v > 0 \<or> js_and (shapeFlag v) COMPONENT \<noteq> 0)
                         \<and> patchFlag v \<noteq> HYDRATE_EVENTS
                      then ys @ [length (vnodes s)] else ys)))
   \<and> (wf_blocks s \<and> isBlockTreeEnabled s > 0
    \<longrightarrow> (\<exists>a1 s1 a2 s2 a3 s3 root s4 v r.
          createBaseVNode e fuel ta pa ca TEXT da None False False (openBlock False s) = Returns (a1, s1)
        \<and> createBaseVNode e fuel tb pb cb 0 db None False False s1 = Returns (a2, s2)
        \<and> createBaseVNode e fuel tc pc cc CLASS dc None False False s2 = Returns (a3, s3)
        \<and> createElementBlock e tr pr cr pfr dr shaper s3 = Returns (root, s4)
        \<and> vnode_at s4 root = Some v \<and> dynamicChildren v = Some (ArrAt r)
        \<and> array_at s4 r = Some [a1, a3] \<and> distinct [a1, a2, a3, root]))
   \<and> (wf_blocks s \<and> isBlockTreeEnabled s > 0 \<and> \<not> isObject xa \<and> \<not> isObject xb \<and> \<not> isObject xc
    \<longrightarrow> (\<exists>a1 s1 a2 s2 a3 s3 root s4 v r.
          createVNode e (Suc n) (Str ga) None xa TEXT None False (openBlock False s) = Returns (a1, s1)
        \<and> createVNode e (Suc n) (Str gb) None xb 0 None False s1 = Returns (a2, s2)
        \<and> createVNode e (Suc n) (Str gc) qc xc CLASS None False s2 = Returns (a3, s3)
        \<and> createBlock e (Suc n) (Str gr) None (Arr k [VN a1, VN a2, VN a3]) 0 None s3 = Returns (root, s4)
        \<and> vnode_at s4 root = Some v \<and> dynamicChildren v = Some (ArrAt r)
        \<and> array_at s4 r = Some [a1, a3] \<and> distinct [a1, a2, a3, root]))"
proof (intro conjI impI)
  assume ret: "createBaseVNode e fuel ty ps ch pf dps shape isBlockNode needFull s = Returns (a, s')"
  define sf where "sf = default_shapeFlag ty shape"
  from ret obtain t where n: "new_vnode e fuel ty ps ch pf dps sf needFull s = Returns (a, t)"
    and f: "validate_and_track e a isBlockNode sf t = Returns (a, s')"
    unfolding createBaseVNode_split sf_def by blast
  from validate_and_track_result [OF f] obtain v where v: "vnode_at t a = Some v"
    and vs: "vnodes s' = vnodes t"
    and arr: "arrays s' = (if tracked t isBlockNode sf v
                           then (arrays t)[the (currentBlock t) := arrays t ! the (currentBlock t) @ [a]]
                           else arrays t)"
    by blast
  have "array_at s' r =
          Some (if \<not> isBlockNode \<and> (patchFlag v > 0 \<or> js_and sf COMPONENT \<noteq> 0)
                   \<and> patchFlag v \<noteq> HYDRATE_EVENTS
                then xs @ [a] else xs)"
    if h: "isBlockTreeEnabled t > 0 \<and> currentBlock t = Some r \<and> array_at t r = Some xs" for r xs
  proof -
    from h have "r < length (arrays t)" "arrays t ! r = xs"
      by (auto dest: nth_opt_Some_less nth_opt_Some_nth)
    with h show ?thesis
      unfolding arr tracked_def by simp
  qed
  with n v vs show "\<exists>t v. new_vnode e fuel ty ps ch pf dps (default_shapeFlag ty shape) needFull s = Returns (a, t)
          \<and> vnode_at t a = Some v \<and> vnode_at s' a = Some v
          \<and> (\<forall>r xs. isBlockTreeEnabled t > 0 \<and> currentBlock t = Some r \<and> array_at t r = Some xs
                \<longrightarrow> array_at s' r =
                      Some (if \<not> isBlockNode
                               \<and> (patchFlag v > 0 \<or> js_and (default_shapeFlag ty shape) COMPONENT \<noteq> 0)
                               \<and> patchFlag v \<noteq> HYDRATE_EVENTS
                            then xs @ [a] else xs))"
    unfolding sf_def by auto
next
  assume h: "isBlockTreeEnabled s > 0 \<and> currentBlock s = Some q \<and> array_at s q = Some ys"
  then have ql: "q < length (arrays s)" and qn: "arrays s ! q = ys"
    by (auto dest: nth_opt_Some_less nth_opt_Some_nth)
  from createBaseVNode_compiled_step [of e fuel ty ps ch pf dps shape isBlockNode s]
  obtain s' v where ret: "createBaseVNode e fuel ty ps ch pf dps shape isBlockNode False s
                            = Returns (length (vnodes s), s')"
    and v: "vnodes s' = vnodes s @ [v]" "patchFlag v = pf"
      "js_and (shapeFlag v) COMPONENT = js_and (default_shapeFlag ty shape) COMPONENT"
    and arr: "arrays s' =
           (if isBlockTreeEnabled s > 0 \<and> currentBlock s \<noteq> None \<and> \<not> isBlockNode
                 \<and> (pf > 0 \<or> js_and (default_shapeFlag ty shape) COMPONENT \<noteq> 0)
                 \<and> pf \<noteq> HYDRATE_EVENTS
            then (arrays s)[the (currentBlock s) := arrays s ! the (currentBlock s) @ [length (vnodes s)]]
            else arrays s)"
    by blast
  have "vnode_at s' (length (vnodes s)) = Some v"
    by (simp add: v)
  moreover have "array_at s' q =
                Some (if \<not> isBlockNode \<and> (patchFlag v > 0 \<or> js_and (shapeFlag v) COMPONENT \<noteq> 0)
                         \<and> patchFlag v \<noteq> HYDRATE_EVENTS
                      then ys @ [length (vnodes s)] else ys)"
    unfolding arr v using h ql qn by (simp add: nth_opt_def)
  ultimately show "\<exists>s' v. createBaseVNode e fuel ty ps ch pf dps shape isBlockNode False s
                   = Returns (length (vnodes s), s')
          \<and> vnode_at s' (length (vnodes s)) = Some v \<and> patchFlag v = pf
          \<and> array_at s' q =
                Some (if \<not> isBlockNode \<and> (patchFlag v > 0 \<or> js_and (shapeFlag v) COMPONENT \<noteq> 0)
                         \<and> patchFlag v \<noteq> HYDRATE_EVENTS
                      then ys @ [length (vnodes s)] else ys)"
    using ret v by blast
next
  assume h: "wf_blocks s \<and> isBlockTreeEnabled s > 0"
  define r where "r = length (arrays s)"
  define n where "n = length (vnodes s)"
  define s0 where "s0 = openBlock False s"
  have s0: "vnodes s0 = vnodes s" "blockStack s0 = blockStack s @ [Some r]"
    "currentBlock s0 = Some r" "arrays s0 = arrays s @ [[]]" "isBlockTreeEnabled s0 > 0"
    using h by (simp_all add: s0_def r_def)
  from createBaseVNode_compiled_step [of e fuel ta pa ca TEXT da None False s0]
  obtain s1 where call1: "createBaseVNode e fuel ta pa ca TEXT da None False False s0 = Returns (n, s1)"
    and s1: "length (vnodes s1) = Suc n" "blockStack s1 = blockStack s @ [Some r]"
      "currentBlock s1 = Some r" "isBlockTreeEnabled s1 > 0" "arrays s1 = arrays s @ [[n]]"
    using s0 by (auto simp: n_def r_def PatchFlags_defs)
  from createBaseVNode_compiled_step [of e fuel tb pb cb 0 db None False s1]
  obtain s2 where call2: "createBaseVNode e fuel tb pb cb 0 db None False False s1 = Returns (Suc n, s2)"
    and s2: "length (vnodes s2) = Suc (Suc n)" "blockStack s2 = blockStack s @ [Some r]"
      "currentBlock s2 = Some r" "isBlockTreeEnabled s2 > 0" "arrays s2 = arrays s @ [[n]]"
    using s1 by (auto simp: default_shapeFlag_None_not_component)
  from createBaseVNode_compiled_step [of e fuel tc pc cc CLASS dc None False s2]
  obtain s3 where call3: "createBaseVNode e fuel tc pc cc CLASS dc None False False s2 = Returns (Suc (Suc n), s3)"
    and s3: "length (vnodes s3) = Suc (Suc (Suc n))" "blockStack s3 = blockStack s @ [Some r]"
      "currentBlock s3 = Some r" "isBlockTreeEnabled s3 > 0" "arrays s3 = arrays s @ [[n, Suc (Suc n)]]"
    using s2 by (auto simp: r_def PatchFlags_defs)
  from createBaseVNode_compiled_step [of e 0 tr pr cr pfr dr shaper True s3]
  obtain s3' v where call4: "createBaseVNode e 0 tr pr cr pfr dr shaper True False s3 = Returns (Suc (Suc (Suc n)), s3')"
    and s3': "vnodes s3' = vnodes s3 @ [v]" "blockStack s3' = blockStack s @ [Some r]"
      "currentBlock s3' = Some r" "isBlockTreeEnabled s3' > 0" "arrays s3' = arrays s @ [[n, Suc (Suc n)]]"
    using s3 by auto
  obtain root s4 where sb: "setupBlock (Suc (Suc (Suc n))) s3' = (root, s4)"
    by (cases "setupBlock (Suc (Suc (Suc n))) s3'")
  have parent: "butlast (blockStack s3') \<noteq> [] \<Longrightarrow> last (butlast (blockStack s3')) \<noteq> None \<Longrightarrow>
                  the (last (butlast (blockStack s3'))) < r"
    using h s3' by (auto simp: wf_blocks_def r_def)
  from setupBlock_result [OF sb] s3' s3 parent
  have root: "root = Suc (Suc (Suc n))"
    and v4: "vnode_at s4 root = Some (v\<lparr>dynamicChildren := Some (ArrAt r)\<rparr>)"
    and a4: "array_at s4 r = Some [n, Suc (Suc n)]"
    by (auto simp: nth_append nth_opt_def r_def)
  have ceb: "createElementBlock e tr pr cr pfr dr shaper s3 = Returns (root, s4)"
    using call4 sb by (simp add: createElementBlock_def)
  have d: "dynamicChildren (v\<lparr>dynamicChildren := Some (ArrAt r)\<rparr>) = Some (ArrAt r)"
    by simp
  have dist: "distinct [n, Suc n, Suc (Suc n), root]"
    using root by simp
  from call1 call2 call3 ceb v4 d a4 dist
  show "\<exists>a1 s1 a2 s2 a3 s3 root s4 v r.
          createBaseVNode e fuel ta pa ca TEXT da None False False (openBlock False s) = Returns (a1, s1)
        \<and> createBaseVNode e fuel tb pb cb 0 db None False False s1 = Returns (a2, s2)
        \<and> createBaseVNode e fuel tc pc cc CLASS dc None False False s2 = Returns (a3, s3)
        \<and> createElementBlock e tr pr cr pfr dr shaper s3 = Returns (root, s4)
        \<and> vnode_at s4 root = Some v \<and> dynamicChildren v = Some (ArrAt r)
        \<and> array_at s4 r = Some [a1, a3] \<and> distinct [a1, a2, a3, root]"
    unfolding s0_def by blast
next
  assume h: "wf_blocks s \<and> isBlockTreeEnabled s > 0 \<and> \<not> isObject xa \<and> \<not> isObject xb \<and> \<not> isObject xc"
  define r where "r = length (arrays s)"
  define m where "m = length (vnodes s)"
  define s0 where "s0 = openBlock False s"
  have s0: "vnodes s0 = vnodes s" "blockStack s0 = blockStack s @ [Some r]"
    "currentBlock s0 = Some r" "arrays s0 = arrays s @ [[]]" "isBlockTreeEnabled s0 > 0"
    using h by (simp_all add: s0_def r_def)
  from h have xa: "isObject xa \<longrightarrow> isArray xa" and xb: "isObject xb \<longrightarrow> isArray xb"
    and xc: "isObject xc \<longrightarrow> isArray xc"
    by simp_all
  from createVNode_element [OF xa, of e n ga None TEXT None False s0]
  obtain s1 where call1: "createVNode e (Suc n) (Str ga) None xa TEXT None False s0 = Returns (m, s1)"
    and s1: "length (vnodes s1) = Suc m" "blockStack s1 = blockStack s @ [Some r]"
      "currentBlock s1 = Some r" "isBlockTreeEnabled s1 > 0" "arrays s1 = arrays s @ [[m]]"
    using s0 by (auto simp: m_def r_def PatchFlags_defs)
  from createVNode_element [OF xb, of e n gb None 0 None False s1]
  obtain s2 where call2: "createVNode e (Suc n) (Str gb) None xb 0 None False s1 = Returns (Suc m, s2)"
    and s2: "length (vnodes s2) = Suc (Suc m)" "blockStack s2 = blockStack s @ [Some r]"
      "currentBlock s2 = Some r" "isBlockTreeEnabled s2 > 0" "arrays s2 = arrays s @ [[m]]"
    using s1 by auto
  from createVNode_element [OF xc, of e n gc qc CLASS None False s2]
  obtain s3 where call3: "createVNode e (Suc n) (Str gc) qc xc CLASS None False s2 = Returns (Suc (Suc m), s3)"
    and s3: "length (vnodes s3) = Suc (Suc (Suc m))" "blockStack s3 = blockStack s @ [Some r]"
      "currentBlock s3 = Some r" "isBlockTreeEnabled s3 > 0" "arrays s3 = arrays s @ [[m, Suc (Suc m)]]"
    using s2 by (auto simp: r_def PatchFlags_defs)
  have arr: "isObject (Arr k [VN m, VN (Suc m), VN (Suc (Suc m))])
               \<longrightarrow> isArray (Arr k [VN m, VN (Suc m), VN (Suc (Suc m))])"
    by simp
  from createVNode_element [OF arr, of e n gr None 0 None True s3]
  obtain s3' v where call4: "createVNode e (Suc n) (Str gr) None (Arr k [VN m, VN (Suc m), VN (Suc (Suc m))])
                               0 None True s3 = Returns (Suc (Suc (Suc m)), s3')"
    and s3': "vnodes s3' = vnodes s3 @ [v]" "blockStack s3' = blockStack s @ [Some r]"
      "currentBlock s3' = Some r" "isBlockTreeEnabled s3' > 0" "arrays s3' = arrays s @ [[m, Suc (Suc m)]]"
    using s3 by auto
  obtain root s4 where sb: "setupBlock (Suc (Suc (Suc m))) s3' = (root, s4)"
    by (cases "setupBlock (Suc (Suc (Suc m))) s3'")
  have parent: "butlast (blockStack s3') \<noteq> [] \<Longrightarrow> last (butlast (blockStack s3')) \<noteq> None \<Longrightarrow>
                  the (last (butlast (blockStack s3'))) < r"
    using h s3' by (auto simp: wf_blocks_def r_def)
  from setupBlock_result [OF sb] s3' s3 parent
  have root: "root = Suc (Suc (Suc m))"
    and v4: "vnode_at s4 root = Some (v\<lparr>dynamicChildren := Some (ArrAt r)\<rparr>)"
    and a4: "array_at s4 r = Some [m, Suc (Suc m)]"
    by (auto simp: nth_append nth_opt_def r_def)
  have cb: "createBlock e (Suc n) (Str gr) None (Arr k [VN m, VN (Suc m), VN (Suc (Suc m))]) 0 None s3
              = Returns (root, s4)"
    using call4 sb by (simp add: createBlock_def)
  have d: "dynamicChildren (v\<lparr>dynamicChildren := Some (ArrAt r)\<rparr>) = Some (ArrAt r)"
    by simp
  have dist: "distinct [m, Suc m, Suc (Suc m), root]"
    using root by simp
  from call1 call2 call3 cb v4 d a4 dist
  show "\<exists>a1 s1 a2 s2 a3 s3 root s4 v r.
          createVNode e (Suc n) (Str ga) None xa TEXT None False (openBlock False s) = Returns (a1, s1)
        \<and> createVNode e (Suc n) (Str gb) None xb 0 None False s1 = Returns (a2, s2)
        \<and> createVNode e (Suc n) (Str gc) qc xc CLASS None False s2 = Returns (a3, s3)
        \<and> createBlock e (Suc n) (Str gr) None (Arr k [VN a1, VN a2, VN a3]) 0 None s3 = Returns (root, s4)
        \<and> vnode_at s4 root = Some v \<and> dynamicChildren v = Some (ArrAt r)
        \<and> array_at s4 r = Some [a1, a3] \<and> distinct [a1, a2, a3, root]"
    unfolding s0_def by blast
qed

lemmas construct_defs =
  createElementBlock_def createBaseVNode_def createBaseVNode_with_def new_vnode_def new_vnode_with_def
  normalize_new_children_def
  validate_and_track_def setupBlock_def default_shapeFlag_def alloc_vnode_def base_vnode_def
  tracked_def update_vnode_def array_push_def openBlock_def closeBlock_def setBlockTracking_def
  init_state_def returned_vnode_def returned_state_def strict_eq_def Fragment_def warn_def
  dev_env_def prod_env_def js_and_def js_or_def COMPONENT_def ShapeFlags_defs PatchFlags_defs
  normalizeKey_def normalizeRef_def Let_def

theorem C1_block_tracking_witness:
  "(\<exists>s'. createBaseVNode span_slot_env 2 (Str ''div'') None (Obj 7 [(''default'', Fn 0)]) 0 None None True True
            (openBlock False init_state) = Returns (0, s')
      \<and> (\<exists>t. new_vnode span_slot_env 2 (Str ''div'') None (Obj 7 [(''default'', Fn 0)]) 0 None ELEMENT True
                 (openBlock False init_state) = Returns (0, t)
            \<and> isBlockTreeEnabled t > 0 \<and> currentBlock t = Some 0 \<and> array_at t 0 = Some [1]
            \<and> array_at s' 0 = Some [1]))
   \<and> isBlockTreeEnabled (openBlock False init_state) > 0
   \<and> currentBlock (openBlock False init_state) = Some 0
   \<and> array_at (openBlock False init_state) 0 = Some []
   \<and> (\<exists>s' v. createBaseVNode dev_env 0 (Str ''p'') None (Str ''x'') TEXT None None False False
            (openBlock False init_state) = Returns (0, s')
         \<and> vnode_at s' 0 = Some v \<and> patchFlag v = TEXT \<and> array_at s' 0 = Some [0])
   \<and> wf_blocks init_state \<and> isBlockTreeEnabled init_state > 0
   \<and> (\<exists>a1 s1 a2 s2 a3 s3 root s4 v r.
          createBaseVNode dev_env 0 (Str ''p'') None (Str ''x'') TEXT None None False False
            (openBlock False init_state) = Returns (a1, s1)
        \<and> createBaseVNode dev_env 0 (Str ''p'') None (Str ''y'') 0 None None False False s1 = Returns (a2, s2)
        \<and> createBaseVNode dev_env 0 (Str ''p'') None (Str ''z'') CLASS None None False False s2 = Returns (a3, s3)
        \<and> createElementBlock dev_env (Str ''div'') None Null 0 None None s3 = Returns (root, s4)
        \<and> vnode_at s4 root = Some v \<and> dynamicChildren v = Some (ArrAt r)
        \<and> array_at s4 r = Some [a1, a3] \<and> distinct [a1, a2, a3, root])
   \<and> (\<exists>a1 s1 a2 s2 a3 s3 root s4 v r.
          createVNode dev_env 1 (Str ''p'') None (Str ''x'') TEXT None False (openBlock False init_state)
            = Returns (a1, s1)
        \<and> createVNode dev_env 1 (Str ''p'') None (Str ''static'') 0 None False s1 = Returns (a2, s2)
        \<and> createVNode dev_env 1 (Str ''p'') (Some [(''class'', Str ''k'')]) Null CLASS None False s2
            = Returns (a3, s3)
        \<and> createBlock dev_env 1 (Str ''div'') None (Arr 0 [VN a1, VN a2, VN a3]) 0 None s3 = Returns (root, s4)
        \<and> vnode_at s4 root = Some v \<and> dynamicChildren v = Some (ArrAt r)
        \<and> array_at s4 r = Some [a1, a3] \<and> distinct [a1, a2, a3, root])"
proof -
  let ?s = "openBlock False init_state"
  let ?ch = "Obj 7 [(''default'', Fn 0)]"
  have "\<exists>s'. createBaseVNode span_slot_env 2 (Str ''div'') None ?ch 0 None None True True ?s = Returns (0, s')"
    by (simp add: construct_defs span_slot_env_def normalizeChildren_with.simps numeral_2_eq_2
        set_children_def instance_ref_def)
  then obtain s' where ret: "createBaseVNode span_slot_env 2 (Str ''div'') None ?ch 0 None None True True ?s
                               = Returns (0, s')" ..
  have sf: "default_shapeFlag (Str ''div'') None = ELEMENT"
    by (simp add: default_shapeFlag_def strict_eq_def Fragment_def)
  have "\<exists>t v. new_vnode span_slot_env 2 (Str ''div'') None ?ch 0 None ELEMENT True ?s = Returns (0, t)
          \<and> vnode_at t 0 = Some v \<and> vnode_at s' 0 = Some v
          \<and> (\<forall>r xs. isBlockTreeEnabled t > 0 \<and> currentBlock t = Some r \<and> array_at t r = Some xs
                \<longrightarrow> array_at s' r =
                      Some (if \<not> True
                               \<and> (patchFlag v > 0 \<or> js_and ELEMENT COMPONENT \<noteq> 0)
                               \<and> patchFlag v \<noteq> HYDRATE_EVENTS
                            then xs @ [0] else xs))"
    using C1_block_tracking [THEN conjunct1, rule_format, OF ret] unfolding sf .
  then obtain t where "\<exists>v. new_vnode span_slot_env 2 (Str ''div'') None ?ch 0 None ELEMENT True ?s = Returns (0, t)
          \<and> vnode_at t 0 = Some v \<and> vnode_at s' 0 = Some v
          \<and> (\<forall>r xs. isBlockTreeEnabled t > 0 \<and> currentBlock t = Some r \<and> array_at t r = Some xs
                \<longrightarrow> array_at s' r =
                      Some (if \<not> True
                               \<and> (patchFlag v > 0 \<or> js_and ELEMENT COMPONENT \<noteq> 0)
                               \<and> patchFlag v \<noteq> HYDRATE_EVENTS
                            then xs @ [0] else xs))" ..
  then obtain v where big: "new_vnode span_slot_env 2 (Str ''div'') None ?ch 0 None ELEMENT True ?s = Returns (0, t)
          \<and> vnode_at t 0 = Some v \<and> vnode_at s' 0 = Some v
          \<and> (\<forall>r xs. isBlockTreeEnabled t > 0 \<and> currentBlock t = Some r \<and> array_at t r = Some xs
                \<longrightarrow> array_at s' r =
                      Some (if \<not> True
                               \<and> (patchFlag v > 0 \<or> js_and ELEMENT COMPONENT \<noteq> 0)
                               \<and> patchFlag v \<noteq> HYDRATE_EVENTS
                            then xs @ [0] else xs))" ..
  note n = big [THEN conjunct1]
  note tr = big [THEN conjunct2, THEN conjunct2, THEN conjunct2]
  have "map_option (\<lambda>t. (arrays t, currentBlock t, isBlockTreeEnabled t))
          (returned_state (new_vnode span_slot_env 2 (Str ''div'') None ?ch 0 None ELEMENT True ?s))
        = Some ([[1]], Some 0, 1)"
    by (simp add: construct_defs span_slot_env_def normalizeChildren_with.simps numeral_2_eq_2
        set_children_def instance_ref_def)
  with n have t: "isBlockTreeEnabled t > 0 \<and> currentBlock t = Some 0 \<and> array_at t 0 = Some [1]"
    by (simp add: returned_state_def)
  from tr [rule_format, OF t] have "array_at s' 0 = Some [1]"
    by simp
  with ret n t have one: "\<exists>s'. createBaseVNode span_slot_env 2 (Str ''div'') None ?ch 0 None None True True ?s
                                  = Returns (0, s')
      \<and> (\<exists>t. new_vnode span_slot_env 2 (Str ''div'') None ?ch 0 None ELEMENT True ?s = Returns (0, t)
            \<and> isBlockTreeEnabled t > 0 \<and> currentBlock t = Some 0 \<and> array_at t 0 = Some [1]
            \<and> array_at s' 0 = Some [1])"
    by blast
  have hyp: "isBlockTreeEnabled ?s > 0 \<and> currentBlock ?s = Some 0 \<and> array_at ?s 0 = Some []"
    by (simp add: init_state_def)
  from C1_block_tracking [where s = ?s and e = dev_env and fuel = 0 and ty = "Str ''p''" and ps = None
      and ch = "Str ''x''" and pf = TEXT and dps = None and shape = None and isBlockNode = False,
      THEN conjunct2, THEN conjunct1, rule_format, OF hyp]
  have two: "\<exists>s' v. createBaseVNode dev_env 0 (Str ''p'') None (Str ''x'') TEXT None None False False ?s
                        = Returns (0, s')
         \<and> vnode_at s' 0 = Some v \<and> patchFlag v = TEXT \<and> array_at s' 0 = Some [0]"
    by (auto simp: init_state_def PatchFlags_defs)
  have wf: "wf_blocks init_state \<and> isBlockTreeEnabled init_state > 0"
    by (simp add: wf_blocks_def init_state_def)
  note three = C1_block_tracking [where s = init_state and e = dev_env and fuel = 0
      and ta = "Str ''p''" and pa = None and ca = "Str ''x''" and da = None
      and tb = "Str ''p''" and pb = None and cb = "Str ''y''" and db = None
      and tc = "Str ''p''" and pc = None and cc = "Str ''z''" and dc = None
      and tr = "Str ''div''" and pr = None and cr = Null and pfr = 0 and dr = None and shaper = None,
      THEN conjunct2, THEN conjunct2, THEN conjunct1, rule_format, OF wf]
  have wf4: "wf_blocks init_state \<and> isBlockTreeEnabled init_state > 0 \<and> \<not> isObject (Str ''x'')
               \<and> \<not> isObject (Str ''static'') \<and> \<not> isObject Null"
    using wf by simp
  note four = C1_block_tracking [where s = init_state and e = dev_env and n = 0
      and ga = "''p''" and xa = "Str ''x''" and gb = "''p''" and xb = "Str ''static''"
      and gc = "''p''" and qc = "Some [(''class'', Str ''k'')]" and xc = Null
      and gr = "''div''" and k = 0,
      THEN conjunct2, THEN conjunct2, THEN conjunct2, rule_format, OF wf4, unfolded One_nat_def [symmetric]]
  from one hyp two wf three four show ?thesis
    by blast
qed

text \<open>
  C2 (as amended). \<^verbatim>\<open>setupBlock\<close> pops the top frame of the block stack. While the
  enable counter is positive it sets the \<^verbatim>\<open>dynamicChildren\<close> of the block root to the
  list that was being collected, or to \<^verbatim>\<open>EMPTY_ARR\<close> when no list was (the frame was
  opened with tracking disabled); otherwise it sets them to \<^verbatim>\<open>null\<close>. If after the pop
  a list is being collected and the counter is positive, the block root is pushed onto
  that list; no other list changes. A block opened by \<^verbatim>\<open>openBlock(true)\<close> and closed by
  \<^verbatim>\<open>createElementBlock\<close> while the counter is positive has \<^verbatim>\<open>EMPTY_ARR\<close>, which is
  empty, as its \<^verbatim>\<open>dynamicChildren\<close>.
\<close>

theorem C2_setupBlock:
  "(wf_blocks s \<and> vnode_at s a = Some v \<and> setupBlock a s = (a', s')
    \<longrightarrow> a' = a \<and> blockStack s' = butlast (blockStack s) \<and> wf_blocks s'
        \<and> vnode_at s' a = Some (v\<lparr>dynamicChildren :=
              (if isBlockTreeEnabled s > 0
               then Some (case currentBlock s of Some r \<Rightarrow> ArrAt r | None \<Rightarrow> EMPTY_ARR)
               else None)\<rparr>)
        \<and> (\<forall>r. array_at s' r =
               (if isBlockTreeEnabled s > 0 \<and> currentBlock s' = Some r
                then map_option (\<lambda>xs. xs @ [a]) (array_at s r) else array_at s r)))
   \<and> (wf_blocks s \<and> isBlockTreeEnabled s > 0
    \<longrightarrow> (\<exists>root s' v. createElementBlock e ty ps ch pf dps shape (openBlock True s) = Returns (root, s')
          \<and> vnode_at s' root = Some v \<and> dynamicChildren v = Some EMPTY_ARR
          \<and> elements s' EMPTY_ARR = []))"
proof (rule conjI; rule impI)
  assume h: "wf_blocks s \<and> vnode_at s a = Some v \<and> setupBlock a s = (a', s')"
  from h have wf: "wf_blocks s" and v: "vnode_at s a = Some v" and sb: "setupBlock a s = (a', s')"
    by simp_all
  from sb have a': "a' = fst (setupBlock a s)" and s': "s' = snd (setupBlock a s)"
    by simp_all
  from v have an: "vnodes s ! a = v"
    by (rule nth_opt_Some_nth)
  have wf': "wf_blocks s'"
    unfolding s' by (rule wf_blocks_butlast [OF wf]) simp_all
  have dyn: "vnode_at s' a = Some (v\<lparr>dynamicChildren :=
              (if isBlockTreeEnabled s > 0
               then Some (case currentBlock s of Some r \<Rightarrow> ArrAt r | None \<Rightarrow> EMPTY_ARR)
               else None)\<rparr>)"
    unfolding s' using v an by (cases "currentBlock s") simp_all
  have arr: "array_at s' r =
               (if isBlockTreeEnabled s > 0 \<and> currentBlock s' = Some r
                then map_option (\<lambda>xs. xs @ [a]) (array_at s r) else array_at s r)" for r
  proof (cases "currentBlock s'")
    case None
    then show ?thesis
      unfolding s' by (simp add: setupBlock_arrays del: setupBlock_fields)
  next
    case (Some q)
    then show ?thesis
      unfolding s' by (simp add: setupBlock_arrays nth_opt_def del: setupBlock_fields)
  qed
  from a' s' wf' dyn arr
  show "a' = a \<and> blockStack s' = butlast (blockStack s) \<and> wf_blocks s'
        \<and> vnode_at s' a = Some (v\<lparr>dynamicChildren :=
              (if isBlockTreeEnabled s > 0
               then Some (case currentBlock s of Some r \<Rightarrow> ArrAt r | None \<Rightarrow> EMPTY_ARR)
               else None)\<rparr>)
        \<and> (\<forall>r. array_at s' r =
               (if isBlockTreeEnabled s > 0 \<and> currentBlock s' = Some r
                then map_option (\<lambda>xs. xs @ [a]) (array_at s r) else array_at s r))"
    by simp
next
  assume h: "wf_blocks s \<and> isBlockTreeEnabled s > 0"
  define s0 where "s0 = openBlock True s"
  from createBaseVNode_compiled_step [of e 0 ty ps ch pf dps shape True s0]
  obtain s1 v where call: "createBaseVNode e 0 ty ps ch pf dps shape True False s0 = Returns (length (vnodes s0), s1)"
    and s1: "vnodes s1 = vnodes s0 @ [v]" "blockStack s1 = blockStack s0" "currentBlock s1 = currentBlock s0"
      "isBlockTreeEnabled s1 = isBlockTreeEnabled s0"
    by auto
  obtain root s' where sb: "setupBlock (length (vnodes s0)) s1 = (root, s')"
    by (cases "setupBlock (length (vnodes s0)) s1")
  from setupBlock_result [OF sb] s1 h
  have "root = length (vnodes s0)"
    and "vnode_at s' root = Some (v\<lparr>dynamicChildren := Some EMPTY_ARR\<rparr>)"
    by (simp_all add: s0_def)
  moreover have "createElementBlock e ty ps ch pf dps shape s0 = Returns (root, s')"
    using call sb by (simp add: createElementBlock_def)
  moreover have "dynamicChildren (v\<lparr>dynamicChildren := Some EMPTY_ARR\<rparr>) = Some EMPTY_ARR"
    by simp
  moreover have "elements s' EMPTY_ARR = []"
    by simp
  ultimately show "\<exists>root s' v. createElementBlock e ty ps ch pf dps shape (openBlock True s) = Returns (root, s')
          \<and> vnode_at s' root = Some v \<and> dynamicChildren v = Some EMPTY_ARR
          \<and> elements s' EMPTY_ARR = []"
    unfolding s0_def by blast
qed

text \<open>
  C2 as stated fails where the enable counter is not positive (inside a subtree cached by
  \<^verbatim>\<open>v-once\<close>, after \<^verbatim>\<open>setBlockTracking(-1)\<close>): a block is opened with tracking, its
  list is array \<open>0\<close>, and the block root is left with \<^verbatim>\<open>dynamicChildren = null\<close>,
  neither that list nor \<^verbatim>\<open>EMPTY_ARR\<close>.
\<close>

theorem C2_counterexample:
  "currentBlock (openBlock False (setBlockTracking (- 1) init_state)) = Some 0
   \<and> map_option dynamicChildren
         (returned_vnode (createElementBlock dev_env (Str ''div'') None Null 0 None None
            (openBlock False (setBlockTracking (- 1) init_state)))) = Some None"
  by (simp add: construct_defs)

theorem C2_setupBlock_witness:
  "wf_blocks (openBlock False init_state\<lparr>vnodes := [base_vnode init_state (Str ''div'') None Null Null 0 None 1]\<rparr>)
   \<and> setupBlock 0 (openBlock False init_state\<lparr>vnodes := [base_vnode init_state (Str ''div'') None Null Null 0 None 1]\<rparr>)
       = (0, snd (setupBlock 0 (openBlock False init_state\<lparr>vnodes := [base_vnode init_state (Str ''div'') None Null Null 0 None 1]\<rparr>)))
   \<and> blockStack (snd (setupBlock 0 (openBlock False init_state\<lparr>vnodes := [base_vnode init_state (Str ''div'') None Null Null 0 None 1]\<rparr>))) = []
   \<and> map_option dynamicChildren (vnode_at (snd (setupBlock 0 (openBlock False init_state\<lparr>vnodes := [base_vnode init_state (Str ''div'') None Null Null 0 None 1]\<rparr>))) 0)
       = Some (Some (ArrAt 0))
   \<and> wf_blocks init_state \<and> isBlockTreeEnabled init_state > 0
   \<and> (\<exists>root s' v. createElementBlock dev_env Fragment None Null 0 None None (openBlock True init_state) = Returns (root, s')
          \<and> vnode_at s' root = Some v \<and> dynamicChildren v = Some EMPTY_ARR
          \<and> elements s' EMPTY_ARR = [])"
proof -
  let ?v = "base_vnode init_state (Str ''div'') None Null Null 0 None 1"
  let ?s = "openBlock False init_state\<lparr>vnodes := [?v]\<rparr>"
  have wf: "wf_blocks ?s"
    by (simp add: wf_blocks_def init_state_def)
  have hyp: "wf_blocks ?s \<and> vnode_at ?s 0 = Some ?v \<and> setupBlock 0 ?s = (0, snd (setupBlock 0 ?s))"
    using wf by (simp add: prod_eq_iff)
  have wfi: "wf_blocks init_state \<and> isBlockTreeEnabled init_state > 0"
    by (simp add: wf_blocks_def init_state_def)
  from C2_setupBlock [where s = ?s and a = 0 and v = ?v, THEN conjunct1, rule_format, OF hyp]
    C2_setupBlock [where s = init_state and e = dev_env and ty = Fragment and ps = None and ch = Null
      and pf = 0 and dps = None and shape = None, THEN conjunct2, rule_format, OF wfi]
    hyp wfi
  show ?thesis
    by (simp add: init_state_def)
qed


lemma balanced_calls_dev_env: "balanced_calls dev_env"
  by (simp add: balanced_calls_def dev_env_def)



section \<open>Keys\<close>

lemma strict_eq_NaN [simp]: "\<not> strict_eq NaN x"
  by (simp add: strict_eq_def)

lemma normalizeKey_NaN: "lookup ''key'' p = NaN \<Longrightarrow> normalizeKey p = NaN"
  by (simp add: normalizeKey_def)

lemma isSameVNodeType_NaN:
  assumes "vnode_at s a = Some n" "key n = NaN"
  shows "\<exists>s'. isSameVNodeType e a a s = Returns (False, s')"
  using assms by (simp add: isSameVNodeType_def)

text \<open>
  C8 (as amended). A vnode whose properties give the key \<open>NaN\<close> is constructed like any
  other: the call from compiled code returns, and so does \<^verbatim>\<open>createVNode\<close> for an
  element; the vnode carries the key. The check of the key throws nothing: once the vnode
  is built and its children are normalised, \<^verbatim>\<open>createBaseVNode\<close> returns it. The only
  trace of the invalid key is the diagnostic, which a development build emits (the call of
  \<^verbatim>\<open>warn\<close> is compiled in under \<^verbatim>\<open>__DEV__\<close>) and a production build does not.
  \<^verbatim>\<open>isSameVNodeType(n, n)\<close> is false for every vnode whose key is \<open>NaN\<close>.
\<close>

theorem C8_NaN_key:
  "(lookup ''key'' p = NaN \<longrightarrow>
      (\<exists>s' v. createBaseVNode e fuel ty (Some p) ch pf dps shape isBlockNode False s
                 = Returns (length (vnodes s), s')
         \<and> vnode_at s' (length (vnodes s)) = Some v \<and> key v = NaN
         \<and> warnings s' = warnings s @
               (if DEV e then [''VNode created with invalid key (NaN). VNode type:''] else [])))
   \<and> (lookup ''key'' p = NaN \<and> (isObject ch \<longrightarrow> isArray ch) \<and> tag \<noteq> [] \<longrightarrow>
      (\<exists>s' v. createVNode e (Suc n) (Str tag) (Some p) ch pf dps isBlockNode s
                 = Returns (length (vnodes s), s')
         \<and> vnode_at s' (length (vnodes s)) = Some v \<and> key v = NaN
         \<and> warnings s' = warnings s @
               (if DEV e then [''VNode created with invalid key (NaN). VNode type:''] else [])))
   \<and> (new_vnode e fuel ty ps ch pf dps (default_shapeFlag ty shape) needFull s = Returns (a, u)
        \<and> vnode_at u a = Some w
      \<longrightarrow> (\<exists>s'. createBaseVNode e fuel ty ps ch pf dps shape isBlockNode needFull s = Returns (a, s')
             \<and> vnode_at s' a = Some w
             \<and> warnings s' = warnings u @
                   (if DEV e \<and> key w = NaN
                    then [''VNode created with invalid key (NaN). VNode type:''] else [])))
   \<and> (vnode_at z b = Some x \<and> key x = NaN
      \<longrightarrow> (\<exists>z'. isSameVNodeType e b b z = Returns (False, z')))"
proof (intro conjI impI)
  assume k: "lookup ''key'' p = NaN"
  from createBaseVNode_compiled_step [of e fuel ty "Some p" ch pf dps shape isBlockNode s]
  obtain s' v where call: "createBaseVNode e fuel ty (Some p) ch pf dps shape isBlockNode False s
                           = Returns (length (vnodes s), s')"
    and v: "vnodes s' = vnodes s @ [v]" "key v = normalizeKey p"
    and w: "warnings s' = warnings s @
           (if DEV e \<and> key v = NaN then [''VNode created with invalid key (NaN). VNode type:''] else [])"
    by auto
  from v k have "vnode_at s' (length (vnodes s)) = Some v" "key v = NaN"
    by (simp_all add: normalizeKey_NaN)
  with call w show "\<exists>s' v. createBaseVNode e fuel ty (Some p) ch pf dps shape isBlockNode False s
                 = Returns (length (vnodes s), s')
         \<and> vnode_at s' (length (vnodes s)) = Some v \<and> key v = NaN
         \<and> warnings s' = warnings s @
               (if DEV e then [''VNode created with invalid key (NaN). VNode type:''] else [])"
    by auto
next
  assume h: "lookup ''key'' p = NaN \<and> (isObject ch \<longrightarrow> isArray ch) \<and> tag \<noteq> []"
  then have k: "lookup ''key'' p = NaN" and ch: "isObject ch \<longrightarrow> isArray ch" and tag: "tag \<noteq> []"
    by simp_all
  from createVNode_element [OF ch, of e n tag "Some p" pf dps isBlockNode s]
  obtain s' v where call: "createVNode e (Suc n) (Str tag) (Some p) ch pf dps isBlockNode s
                             = Returns (length (vnodes s), s')"
    and v: "vnodes s' = vnodes s @ [v]" "key v = normalizeKey p"
    and w: "warnings s' = warnings s @
           (if DEV e \<and> tag = [] then [''Invalid vnode type when creating vnode: .''] else []) @
           (if DEV e \<and> key v = NaN then [''VNode created with invalid key (NaN). VNode type:''] else [])"
    by auto
  from v k have "vnode_at s' (length (vnodes s)) = Some v" "key v = NaN"
    by (simp_all add: normalizeKey_NaN)
  with call w tag show "\<exists>s' v. createVNode e (Suc n) (Str tag) (Some p) ch pf dps isBlockNode s
                 = Returns (length (vnodes s), s')
         \<and> vnode_at s' (length (vnodes s)) = Some v \<and> key v = NaN
         \<and> warnings s' = warnings s @
               (if DEV e then [''VNode created with invalid key (NaN). VNode type:''] else [])"
    by auto
next
  assume h: "new_vnode e fuel ty ps ch pf dps (default_shapeFlag ty shape) needFull s = Returns (a, u)
        \<and> vnode_at u a = Some w"
  then have n: "new_vnode e fuel ty ps ch pf dps (default_shapeFlag ty shape) needFull s = Returns (a, u)"
    and w: "vnode_at u a = Some w"
    by simp_all
  from validate_and_track_returns [OF w] obtain s' where
    f: "validate_and_track e a isBlockNode (default_shapeFlag ty shape) u = Returns (a, s')"
    by blast
  from validate_and_track_result [OF f] w
  have "vnode_at s' a = Some w" "warnings s' = warnings u @
                   (if DEV e \<and> key w = NaN
                    then [''VNode created with invalid key (NaN). VNode type:''] else [])"
    by auto
  moreover have "createBaseVNode e fuel ty ps ch pf dps shape isBlockNode needFull s = Returns (a, s')"
    unfolding createBaseVNode_split using n f by blast
  ultimately show "\<exists>s'. createBaseVNode e fuel ty ps ch pf dps shape isBlockNode needFull s = Returns (a, s')
             \<and> vnode_at s' a = Some w
             \<and> warnings s' = warnings u @
                   (if DEV e \<and> key w = NaN
                    then [''VNode created with invalid key (NaN). VNode type:''] else [])"
    by blast
next
  assume "vnode_at z b = Some x \<and> key x = NaN"
  then show "\<exists>z'. isSameVNodeType e b b z = Returns (False, z')"
    by (simp add: isSameVNodeType_NaN)
qed

text \<open>
  C8 as stated fails in a production build: the vnode with the key \<open>NaN\<close> is built, and
  no diagnostic is emitted.
\<close>

theorem C8_counterexample:
  "map_option key (returned_vnode
       (createVNode prod_env 1 (Str ''li'') (Some [(''key'', NaN)]) Null 0 None False init_state)) = Some NaN
   \<and> map_option warnings (returned_state
       (createVNode prod_env 1 (Str ''li'') (Some [(''key'', NaN)]) Null 0 None False init_state)) = Some []"
  by (simp add: construct_defs normalizeChildren_with.simps set_children_def
      createVNode_def createVNode_with_def guardReactiveProps_def normalize_class_style_def
      NULL_DYNAMIC_COMPONENT_def isClassComponent_def)

theorem C8_NaN_key_witness:
  "lookup ''key'' [(''key'', NaN)] = NaN
   \<and> (\<exists>s' v. createBaseVNode dev_env 0 (Str ''li'') (Some [(''key'', NaN)]) Null 0 None None False False init_state
                 = Returns (0, s')
         \<and> vnode_at s' 0 = Some v \<and> key v = NaN
         \<and> warnings s' = [''VNode created with invalid key (NaN). VNode type:'']
         \<and> (\<exists>z'. isSameVNodeType dev_env 0 0 s' = Returns (False, z')))
   \<and> (\<exists>s' v. createVNode prod_env 1 (Str ''li'') (Some [(''key'', NaN)]) (Str ''x'') 0 None False init_state
                 = Returns (0, s')
         \<and> vnode_at s' 0 = Some v \<and> key v = NaN \<and> warnings s' = [])
   \<and> (\<exists>u w s'. new_vnode dev_env 1 (Str ''li'') (Some [(''key'', NaN)]) (Str ''x'') 0 None ELEMENT True init_state
                   = Returns (0, u)
         \<and> vnode_at u 0 = Some w \<and> key w = NaN
         \<and> createBaseVNode dev_env 1 (Str ''li'') (Some [(''key'', NaN)]) (Str ''x'') 0 None None False True init_state
                   = Returns (0, s')
         \<and> vnode_at s' 0 = Some w
         \<and> warnings s' = [''VNode created with invalid key (NaN). VNode type:''])"
proof -
  have k: "lookup ''key'' [(''key'', NaN)] = NaN"
    by simp
  note inst = C8_NaN_key [where p = "[(''key'', NaN)]" and ty = "Str ''li''"
      and pf = 0 and dps = None and shape = None and isBlockNode = False and s = init_state]
  from inst [where e = dev_env and ch = Null and fuel = 0, THEN conjunct1, rule_format, OF k]
  obtain s' v where call: "createBaseVNode dev_env 0 (Str ''li'') (Some [(''key'', NaN)]) Null 0 None None False False init_state
                 = Returns (0, s')"
    and v: "vnode_at s' 0 = Some v" "key v = NaN"
    and w: "warnings s' = [''VNode created with invalid key (NaN). VNode type:'']"
    by (auto simp: init_state_def dev_env_def)
  from inst [where e = dev_env and z = s' and b = 0 and x = v,
      THEN conjunct2, THEN conjunct2, THEN conjunct2, rule_format] v
  have same: "\<exists>z'. isSameVNodeType dev_env 0 0 s' = Returns (False, z')"
    by simp
  have hyp2: "lookup ''key'' [(''key'', NaN)] = NaN \<and> (isObject (Str ''x'') \<longrightarrow> isArray (Str ''x'')) \<and> ''li'' \<noteq> []"
    by simp
  from inst [where e = prod_env and ch = "Str ''x''" and n = 0 and tag = "''li''",
      THEN conjunct2, THEN conjunct1, rule_format, OF hyp2]
  have two: "\<exists>s' v. createVNode prod_env 1 (Str ''li'') (Some [(''key'', NaN)]) (Str ''x'') 0 None False init_state
                 = Returns (0, s')
         \<and> vnode_at s' 0 = Some v \<and> key v = NaN \<and> warnings s' = []"
    by (simp add: init_state_def prod_env_def dev_env_def)
  have "\<exists>u. new_vnode dev_env 1 (Str ''li'') (Some [(''key'', NaN)]) (Str ''x'') 0 None ELEMENT True init_state
                   = Returns (0, u)"
    by (simp add: construct_defs normalizeChildren_with.simps set_children_def)
  then obtain u where n: "new_vnode dev_env 1 (Str ''li'') (Some [(''key'', NaN)]) (Str ''x'') 0 None ELEMENT True
                            init_state = Returns (0, u)" ..
  have "map_option (\<lambda>t. (map key (vnodes t), warnings t))
          (returned_state (new_vnode dev_env 1 (Str ''li'') (Some [(''key'', NaN)]) (Str ''x'') 0 None ELEMENT True
                            init_state)) = Some ([NaN], [])"
    by (simp add: construct_defs normalizeChildren_with.simps set_children_def)
  with n have u: "map key (vnodes u) = [NaN]" "warnings u = []"
    by (simp_all add: returned_state_def)
  then obtain w0 where w0: "vnode_at u 0 = Some w0" "key w0 = NaN"
    by (cases "vnodes u") auto
  have sf: "default_shapeFlag (Str ''li'') None = ELEMENT"
    by (simp add: default_shapeFlag_def strict_eq_def Fragment_def)
  have hyp3: "new_vnode dev_env 1 (Str ''li'') (Some [(''key'', NaN)]) (Str ''x'') 0 None
                (default_shapeFlag (Str ''li'') None) True init_state = Returns (0, u)
        \<and> vnode_at u 0 = Some w0"
    using n w0 sf by simp
  from inst [where e = dev_env and fuel = 1 and ps = "Some [(''key'', NaN)]" and ch = "Str ''x''"
      and needFull = True and a = 0 and u = u and w = w0,
      THEN conjunct2, THEN conjunct2, THEN conjunct1, rule_format, OF hyp3] w0 u
  have three: "\<exists>s'. createBaseVNode dev_env 1 (Str ''li'') (Some [(''key'', NaN)]) (Str ''x'') 0 None None False True init_state
                   = Returns (0, s')
         \<and> vnode_at s' 0 = Some w0
         \<and> warnings s' = [''VNode created with invalid key (NaN). VNode type:'']"
    by (simp add: dev_env_def)
  from k call v w same two n w0 three show ?thesis
    by blast
qed

section \<open>The clone\<close>

text \<open>What \<^verbatim>\<open>cloneVNode\<close> returns: a new vnode, allocated last, whose fields are those
  of the object literal.\<close>

lemma cloneVNode_result:
  assumes ret: "cloneVNode e fuel a x m s = Returns (c, s')" and v: "vnode_at s a = Some v"
  shows "\<exists>t ch ssc ssf. extends s t \<and> c = length (vnodes t)
           \<and> s' = t\<lparr>vnodes := vnodes t @
                  [cloned_vnode v (fst (clone_props v x s))
                     (fst (clone_ref e v x m (snd (clone_props v x s)))) ch (clone_patchFlag v x) ssc ssf]\<rparr>
           \<and> (\<not> (DEV e \<and> patchFlag v = HOISTED \<and> isArray (children v)) \<longrightarrow> ch = children v)
           \<and> (ssc = None \<longleftrightarrow> ssContent v = None) \<and> (ssf = None \<longleftrightarrow> ssFallback v = None)"
proof -
  from ret obtain n where fuel: "fuel = Suc n"
    by (cases fuel) auto
  obtain mp s1 where cp: "clone_props v x s = (mp, s1)"
    by (cases "clone_props v x s")
  obtain rf s2 where cr: "clone_ref e v x m s1 = (rf, s2)"
    by (cases "clone_ref e v x m s1")
  have e2: "extends s s2"
    using clone_props_frame [OF cp] clone_ref_frame [OF cr] by (rule extends_trans)
  from ret [unfolded fuel] v cp cr obtain ch s3 ssc s4 ssf s5 where
    kids: "(if DEV e \<and> patchFlag v = HOISTED \<and> isArray (children v)
            then bind (deepCloneVNodes e n (spread (children v)) s2)
                   (\<lambda>(cs, s'). Returns (Arr (fresh s') cs, s'\<lparr>fresh := Suc (fresh s')\<rparr>))
            else Returns (children v, s2)) = Returns (ch, s3)"
    and content: "(case ssContent v of
                     None \<Rightarrow> Returns (None, s3)
                   | Some c \<Rightarrow> bind (cloneVNode e n c None False s3)
                                 (\<lambda>(c', s'). Returns (Some c', s'))) = Returns (ssc, s4)"
    and fallback: "(case ssFallback v of
                      None \<Rightarrow> Returns (None, s4)
                    | Some c \<Rightarrow> bind (cloneVNode e n c None False s4)
                                  (\<lambda>(c', s'). Returns (Some c', s'))) = Returns (ssf, s5)"
    and fin: "(c, s') = alloc_vnode
                (cloned_vnode v mp rf ch (clone_patchFlag v x) ssc ssf) s5"
    by (auto simp: bind_eq_Returns)
  have e3: "extends s2 s3" and ch: "\<not> (DEV e \<and> patchFlag v = HOISTED \<and> isArray (children v)) \<longrightarrow> ch = children v"
  proof -
    show "extends s2 s3"
    proof (cases "DEV e \<and> patchFlag v = HOISTED \<and> isArray (children v)")
      case True
      with kids obtain cs t where d: "deepCloneVNodes e n (spread (children v)) s2 = Returns (cs, t)"
        and s3: "s3 = t\<lparr>fresh := Suc (fresh t)\<rparr>"
        by (auto simp: bind_eq_Returns)
      from cloneVNode_extends(3) [OF d] show ?thesis
        by (simp add: s3)
    next
      case False
      with kids show ?thesis by auto
    qed
    from kids show "\<not> (DEV e \<and> patchFlag v = HOISTED \<and> isArray (children v)) \<longrightarrow> ch = children v"
      by auto
  qed
  have e4: "extends s3 s4" and ssc: "ssc = None \<longleftrightarrow> ssContent v = None"
  proof -
    show "extends s3 s4"
    proof (cases "ssContent v")
      case None
      with content show ?thesis by simp
    next
      case (Some k)
      with content obtain k' where d: "cloneVNode e n k None False s3 = Returns (k', s4)"
        by (auto simp: bind_eq_Returns)
      from cloneVNode_extends(1) [OF d] show ?thesis by simp
    qed
    from content show "ssc = None \<longleftrightarrow> ssContent v = None"
      by (cases "ssContent v") (auto simp: bind_eq_Returns)
  qed
  have e5: "extends s4 s5" and ssf: "ssf = None \<longleftrightarrow> ssFallback v = None"
  proof -
    show "extends s4 s5"
    proof (cases "ssFallback v")
      case None
      with fallback show ?thesis by simp
    next
      case (Some k)
      with fallback obtain k' where d: "cloneVNode e n k None False s4 = Returns (k', s5)"
        by (auto simp: bind_eq_Returns)
      from cloneVNode_extends(1) [OF d] show ?thesis by simp
    qed
    from fallback show "ssf = None \<longleftrightarrow> ssFallback v = None"
      by (cases "ssFallback v") (auto simp: bind_eq_Returns)
  qed
  have e: "extends s s5"
    using e2 e3 e4 e5 by (blast intro: extends_trans)
  from fin have c: "c = length (vnodes s5)"
    and "s' = s5\<lparr>vnodes := vnodes s5 @ [cloned_vnode v mp rf ch (clone_patchFlag v x) ssc ssf]\<rparr>"
    by (simp_all add: alloc_vnode_def)
  with cp cr have s': "s' = s5\<lparr>vnodes := vnodes s5 @
                  [cloned_vnode v (fst (clone_props v x s))
                     (fst (clone_ref e v x m (snd (clone_props v x s)))) ch (clone_patchFlag v x) ssc ssf]\<rparr>"
    by simp
  show ?thesis
    by (intro exI [of _ s5] exI [of _ ch] exI [of _ ssc] exI [of _ ssf] conjI)
      (rule e c s' ch ssc ssf)+
qed

lemma strict_eq_NaN_right [simp]: "\<not> strict_eq x NaN"
  by (cases x) (simp_all add: strict_eq_def)

lemma Fragment_strict_eq: "strict_eq t Fragment \<longleftrightarrow> t = Fragment"
  by (cases t) (auto simp: strict_eq_def Fragment_def)

text \<open>
  C4. The patch flag of a clone. With extra properties: that of the original when its type
  is \<^verbatim>\<open>Fragment\<close>; otherwise \<^verbatim>\<open>FULL_PROPS\<close> alone when the original is hoisted
  (patch flag \<open>-1\<close>), and the flag of the original with the \<^verbatim>\<open>FULL_PROPS\<close> bit set
  when it is not. Without extra properties: that of the original. The clone is a new vnode,
  and the original is left as it was. \<^verbatim>\<open>cloneVNode\<close> returns when the vnodes it reaches
  are in the store and the depth of calls allowed suffices.
\<close>

theorem C4_clone_patchFlag:
  "(cloneVNode e fuel a x m s = Returns (c, s') \<and> vnode_at s a = Some v
     \<longrightarrow> (\<exists>w. vnode_at s' c = Some w \<and> vnode_at s c = None \<and> vnode_at s' a = Some v
            \<and> patchFlag w =
                (case x of
                   None \<Rightarrow> patchFlag v
                 | Some extraProps \<Rightarrow>
                     if type v = Fragment then patchFlag v
                     else if patchFlag v = HOISTED then FULL_PROPS
                     else js_or (patchFlag v) FULL_PROPS)))
   \<and> (clonable e fuel (vnodes s) a \<longrightarrow> (\<exists>c s'. cloneVNode e fuel a x m s = Returns (c, s')))"
proof (intro conjI impI)
  assume h: "cloneVNode e fuel a x m s = Returns (c, s') \<and> vnode_at s a = Some v"
  then have ret: "cloneVNode e fuel a x m s = Returns (c, s')" and v: "vnode_at s a = Some v"
    by simp_all
  from cloneVNode_result [OF ret v] obtain t ch ssc ssf where e: "extends s t"
    and c: "c = length (vnodes t)"
    and s': "s' = t\<lparr>vnodes := vnodes t @
                  [cloned_vnode v (fst (clone_props v x s))
                     (fst (clone_ref e v x m (snd (clone_props v x s)))) ch (clone_patchFlag v x) ssc ssf]\<rparr>"
    by blast
  let ?w = "cloned_vnode v (fst (clone_props v x s))
                     (fst (clone_ref e v x m (snd (clone_props v x s)))) ch (clone_patchFlag v x) ssc ssf"
  have "vnode_at s' c = Some ?w"
    by (simp add: s' c)
  moreover have "vnode_at s c = None"
    using e c by (simp add: extends_def nth_opt_def)
  moreover have "vnode_at s' a = Some v"
  proof -
    from e v have "vnode_at t a = Some v"
      by (simp add: extends_def)
    then show ?thesis
      by (auto simp: s' dest: nth_opt_Some_less)
  qed
  moreover have "patchFlag ?w =
                (case x of
                   None \<Rightarrow> patchFlag v
                 | Some extraProps \<Rightarrow>
                     if type v = Fragment then patchFlag v
                     else if patchFlag v = HOISTED then FULL_PROPS
                     else js_or (patchFlag v) FULL_PROPS)"
    by (cases x) (simp_all add: cloned_vnode_def clone_patchFlag_def Fragment_strict_eq HOISTED_def)
  ultimately show "\<exists>w. vnode_at s' c = Some w \<and> vnode_at s c = None \<and> vnode_at s' a = Some v
            \<and> patchFlag w =
                (case x of
                   None \<Rightarrow> patchFlag v
                 | Some extraProps \<Rightarrow>
                     if type v = Fragment then patchFlag v
                     else if patchFlag v = HOISTED then FULL_PROPS
                     else js_or (patchFlag v) FULL_PROPS)"
    by blast
next
  assume "clonable e fuel (vnodes s) a"
  then show "\<exists>c s'. cloneVNode e fuel a x m s = Returns (c, s')"
    by (rule cloneVNode_returns(1))
qed

theorem C4_clone_patchFlag_witness:
  "clonable dev_env 1
     (vnodes (init_state\<lparr>vnodes := [base_vnode init_state (Str ''p'') None Null Null HOISTED None 1]\<rparr>)) 0
   \<and> (\<exists>c s' w. cloneVNode dev_env 1 0 (Some []) False
                   (init_state\<lparr>vnodes := [base_vnode init_state (Str ''p'') None Null Null HOISTED None 1]\<rparr>)
                 = Returns (c, s')
          \<and> vnode_at (init_state\<lparr>vnodes := [base_vnode init_state (Str ''p'') None Null Null HOISTED None 1]\<rparr>) 0
                = Some (base_vnode init_state (Str ''p'') None Null Null HOISTED None 1)
          \<and> vnode_at s' c = Some w \<and> patchFlag w = FULL_PROPS)
   \<and> (\<exists>c s' w. cloneVNode dev_env 1 0 None False
                   (init_state\<lparr>vnodes := [base_vnode init_state (Str ''p'') None Null Null HOISTED None 1]\<rparr>)
                 = Returns (c, s')
          \<and> vnode_at s' c = Some w \<and> patchFlag w = HOISTED)"
proof -
  let ?v = "base_vnode init_state (Str ''p'') None Null Null HOISTED None 1"
  let ?s = "init_state\<lparr>vnodes := [?v]\<rparr>"
  have cl: "clonable dev_env 1 (vnodes ?s) 0"
    by (simp add: One_nat_def base_vnode_def)
  have at: "vnode_at ?s 0 = Some ?v"
    by simp
  have pf: "patchFlag ?v = HOISTED" "type ?v \<noteq> Fragment"
    by (simp_all add: base_vnode_def Fragment_def)
  note inst = C4_clone_patchFlag [where e = dev_env and fuel = 1 and a = 0 and m = False and s = ?s and v = ?v]
  from inst [where x = "Some []", THEN conjunct2, rule_format, OF cl]
  obtain c s' where ret: "cloneVNode dev_env 1 0 (Some []) False ?s = Returns (c, s')"
    by blast
  from inst [where x = "Some []" and c = c and s' = s', THEN conjunct1, rule_format] ret at pf
  have one: "\<exists>w. vnode_at s' c = Some w \<and> patchFlag w = FULL_PROPS"
    by auto
  from inst [where x = None, THEN conjunct2, rule_format, OF cl]
  obtain d u where ret2: "cloneVNode dev_env 1 0 None False ?s = Returns (d, u)"
    by blast
  from inst [where x = None and c = d and s' = u, THEN conjunct1, rule_format] ret2 at pf
  have two: "\<exists>w. vnode_at u d = Some w \<and> patchFlag w = HOISTED"
    by auto
  from cl ret at one ret2 two show ?thesis
    by blast
qed




end
